theory Spec2Isabelle
  imports Main
begin

section \<open>Cell values, errors, rows and frames\<close>

text \<open>
  The script \<^verbatim>\<open>fmlm.py\<close> joins a frame of scan events with a frame of orders and
  rewrites the joined rows with five row functions. A cell of a frame holds a Python
  value: \<^verbatim>\<open>None\<close>, a \<^verbatim>\<open>str\<close>, an \<^verbatim>\<open>int\<close> or a \<^verbatim>\<open>float\<close>. A float is
  represented by its \<^verbatim>\<open>repr\<close> (the text Python prints for it), which determines the
  double: \<open>PFloat ''nan''\<close> is NaN, \<open>PFloat ''0.0''\<close> is zero.
\<close>

datatype pyval = PNone | PStr string | PInt int | PFloat string

abbreviation NaN :: pyval where
  "NaN \<equiv> PFloat ''nan''"

text \<open>
  The exceptions of the script. \<open>MaskError\<close> is the failure of line 127 on an
  \<^verbatim>\<open>external_id\<close> that is not a string (see \<open>drop_retry\<close>).
\<close>

datatype error = KeyError | IndexError | TypeError | ValueError | OverflowError | MaskError

text \<open>
  A row is a pandas \<^verbatim>\<open>Series\<close>: labels to values. A frame is the list of its rows.
\<close>

type_synonym row = "string \<rightharpoonup> pyval"
type_synonym frame = "row list"

definition ebind :: "error + 'a \<Rightarrow> ('a \<Rightarrow> error + 'b) \<Rightarrow> error + 'b" where
  "ebind m f = (case m of Inl e \<Rightarrow> Inl e | Inr x \<Rightarrow> f x)"

text \<open>\<^verbatim>\<open>row[c]\<close>: a missing label raises \<^verbatim>\<open>KeyError\<close>.\<close>

definition getitem :: "row \<Rightarrow> string \<Rightarrow> error + pyval" where
  "getitem r c = (case r c of None \<Rightarrow> Inl KeyError | Some v \<Rightarrow> Inr v)"

text \<open>\<^verbatim>\<open>pandas.isna\<close> on a scalar: true of \<^verbatim>\<open>None\<close> and of NaN.\<close>

fun isna :: "pyval \<Rightarrow> bool" where
  "isna PNone = True"
| "isna (PFloat f) = (f = ''nan'')"
| "isna _ = False"

subsection \<open>\<^verbatim>\<open>str\<close> and \<^verbatim>\<open>float\<close>\<close>

fun digits10 :: "nat \<Rightarrow> string" where
  "digits10 n =
     (if n < 10 then [''0123456789'' ! n]
      else digits10 (n div 10) @ [''0123456789'' ! (n mod 10)])"

declare digits10.simps [simp del]

definition str_int :: "int \<Rightarrow> string" where
  "str_int n = (if n < 0 then ''-'' @ digits10 (nat (- n)) else digits10 (nat n))"

text \<open>\<^verbatim>\<open>str(v)\<close>, which is also what an f-string field \<^verbatim>\<open>{v}\<close> inserts.\<close>

fun py_str :: "pyval \<Rightarrow> string" where
  "py_str PNone = ''None''"
| "py_str (PStr s) = s"
| "py_str (PInt n) = str_int n"
| "py_str (PFloat f) = f"

text \<open>
  \<^verbatim>\<open>float(v)\<close> parses a string and rounds an integer to a double. Both conversions belong
  to the Python runtime (IEEE 754 arithmetic) and are parameters of the model: each gives
  the \<^verbatim>\<open>repr\<close> of the resulting double, or nothing where \<^verbatim>\<open>float\<close> raises
  (\<^verbatim>\<open>ValueError\<close> for a string that is no number, \<^verbatim>\<open>OverflowError\<close> for an integer
  too large). \<^verbatim>\<open>float(None)\<close> raises \<^verbatim>\<open>TypeError\<close>; a float is returned as it is.
\<close>

record float_conv =
  str_to_float :: "string \<rightharpoonup> string"
  int_to_float :: "int \<rightharpoonup> string"

definition py_float :: "float_conv \<Rightarrow> pyval \<Rightarrow> error + pyval" where
  "py_float conv v =
     (case v of
        PNone \<Rightarrow> Inl TypeError
      | PStr s \<Rightarrow> (case str_to_float conv s of None \<Rightarrow> Inl ValueError | Some f \<Rightarrow> Inr (PFloat f))
      | PInt n \<Rightarrow> (case int_to_float conv n of None \<Rightarrow> Inl OverflowError | Some f \<Rightarrow> Inr (PFloat f))
      | PFloat f \<Rightarrow> Inr (PFloat f))"

text \<open>\<^verbatim>\<open>v == 0\<close>: true of the integer zero and of the doubles \<^verbatim>\<open>0.0\<close> and \<^verbatim>\<open>-0.0\<close>.\<close>

fun eq_zero :: "pyval \<Rightarrow> bool" where
  "eq_zero (PInt n) = (n = 0)"
| "eq_zero (PFloat f) = (f = ''0.0'' \<or> f = ''-0.0'')"
| "eq_zero _ = False"

section \<open>The row functions (lines 34 to 69)\<close>

definition refactor_lo_code :: "row \<Rightarrow> error + row" where
  "refactor_lo_code r =
     ebind (getitem r ''lo_code'') (\<lambda>v.
       if \<not> isna v then Inr (r(''lo_code'' \<mapsto> PStr (''LO-'' @ py_str v)))
       else Inr r)"

definition normalize_coordinates :: "float_conv \<Rightarrow> row \<Rightarrow> error + row" where
  "normalize_coordinates conv r =
     ebind (getitem r ''lat'') (\<lambda>a.
     ebind (py_float conv a) (\<lambda>x.
     ebind (getitem (r(''lat'' \<mapsto> x)) ''lon'') (\<lambda>b.
     ebind (py_float conv b) (\<lambda>y.
       Inr (r(''lat'' \<mapsto> x, ''lon'' \<mapsto> y))))))"

definition normalize_tariffs :: "row \<Rightarrow> error + row" where
  "normalize_tariffs r =
     ebind (getitem r ''tariff'') (\<lambda>t.
       if isna t then Inr (r(''tariff'' \<mapsto> PStr ''Unknown''))
       else if eq_zero t then Inr (r(''tariff'' \<mapsto> PStr ''SDD''))
       else Inr (r(''tariff'' \<mapsto> PStr ''NDD'')))"

definition set_barcode_image :: "row \<Rightarrow> error + row" where
  "set_barcode_image r =
     ebind (getitem r ''scanned_barcode_value'') (\<lambda>barcode.
       Inr (r(''scannable_qr'' \<mapsto> PStr (''http://qrcoder.ru/code/?'' @ py_str barcode @ ''&4&0''))))"

definition set_status :: "row \<Rightarrow> error + row" where
  "set_status r =
     ebind (getitem r ''barcode'') (\<lambda>b.
       if isna b then Inr (r(''pick_status'' \<mapsto> PStr ''Missing''))
       else ebind (getitem r ''claim_id'') (\<lambda>c.
         if isna c then Inr (r(''pick_status'' \<mapsto> PStr ''Picked''))
         else Inr (r(''pick_status'' \<mapsto> PStr ''Received''))))"

text \<open>
  \<^verbatim>\<open>frame.apply(f, axis=1)\<close> calls the row function on every row in turn; the first
  exception a call raises ends the whole \<^verbatim>\<open>apply\<close>, and with it the script. The
  rows are put back into a frame, whose column dtypes are inferred again: for the order
  columns of the merged frame this is part of \<open>merge_left\<close> below, and on the frame
  that \<open>merge_left\<close> gives, and on what the five row functions write (texts and
  doubles), the inference changes no value.
\<close>

fun apply_rows :: "(row \<Rightarrow> error + row) \<Rightarrow> frame \<Rightarrow> error + frame" where
  "apply_rows f [] = Inr []"
| "apply_rows f (r # rs) =
     ebind (f r) (\<lambda>r'. ebind (apply_rows f rs) (\<lambda>rs'. Inr (r' # rs')))"

section \<open>Column dtypes\<close>

text \<open>
  pandas holds a column of numbers as an array of one machine type. Where it builds a
  frame from Python objects (the tuples of line 124, and the rows that \<^verbatim>\<open>apply\<close> puts
  back into a frame) it infers the type of every column from the column's values
  (\<^verbatim>\<open>lib.maybe_convert_objects\<close>). A column with a string in it stays a column of
  objects, and so does a column of nothing but \<^verbatim>\<open>None\<close>; a column of integers keeps
  its integers. A column of integers, floats and nulls that holds a float, or an integer
  and a \<^verbatim>\<open>None\<close>, becomes \<^verbatim>\<open>float64\<close>: every integer in it is converted to a double
  and every \<^verbatim>\<open>None\<close> to NaN. An integer that does not fit 64 bits is an object to
  pandas, and its column stays as it is.
\<close>

fun is_int :: "pyval \<Rightarrow> bool" where
  "is_int (PInt n) = True"
| "is_int _ = False"

fun is_float :: "pyval \<Rightarrow> bool" where
  "is_float (PFloat f) = True"
| "is_float _ = False"

fun castable :: "float_conv \<Rightarrow> pyval \<Rightarrow> bool" where
  "castable conv (PStr s) = False"
| "castable conv (PInt n) = (- (2 ^ 63) \<le> n \<and> n < 2 ^ 64 \<and> int_to_float conv n \<noteq> None)"
| "castable conv _ = True"

definition float64_column :: "float_conv \<Rightarrow> pyval list \<Rightarrow> bool" where
  "float64_column conv vs \<longleftrightarrow>
     list_all (castable conv) vs \<and>
     (list_ex is_float vs \<or> (list_ex is_int vs \<and> list_ex (\<lambda>v. v = PNone) vs))"

fun as_float64 :: "float_conv \<Rightarrow> pyval \<Rightarrow> pyval" where
  "as_float64 conv PNone = NaN"
| "as_float64 conv (PInt n) = (case int_to_float conv n of None \<Rightarrow> PInt n | Some f \<Rightarrow> PFloat f)"
| "as_float64 conv v = v"

text \<open>The value \<open>v\<close> as a column with the values \<open>vs\<close> holds it.\<close>

definition astype :: "float_conv \<Rightarrow> pyval list \<Rightarrow> pyval \<Rightarrow> pyval" where
  "astype conv vs v = (if float64_column conv vs then as_float64 conv v else v)"

text \<open>
  \<^verbatim>\<open>frame.infer_objects()\<close> on the columns \<open>cols\<close> of a frame: every value as its
  column holds it.
\<close>

definition column_values :: "string \<Rightarrow> frame \<Rightarrow> pyval list" where
  "column_values c fr = List.map_filter (\<lambda>r. r c) fr"

definition infer_objects :: "float_conv \<Rightarrow> string list \<Rightarrow> frame \<Rightarrow> frame" where
  "infer_objects conv cols fr =
     map (\<lambda>r c. if c \<in> set cols then map_option (astype conv (column_values c fr)) (r c) else r c) fr"

section \<open>The two sources\<close>

text \<open>
  One tuple of \<^verbatim>\<open>cursor.fetchall()\<close> for the query of lines 108 to 122, its fields
  named as the \<^verbatim>\<open>SELECT\<close> names them.
\<close>

record proxy_order =
  client_order_number :: pyval
  routing_order_number :: pyval
  market_order_id :: pyval
  request_id :: pyval
  claim_id :: pyval
  tariff :: pyval
  logistic_status :: pyval
  claim_status :: pyval
  created_at :: pyval
  client_id :: pyval

text \<open>
  Lines 124 to 126: \<^verbatim>\<open>pandas.DataFrame(proxy_orders, columns=[...])\<close> labels the ten
  fields of every tuple, by position: \<open>proxy_row\<close> is one row of the frame.
\<close>

definition proxy_columns :: "string list" where
  "proxy_columns =
     [''barcode'', ''external_id'', ''lo_code'', ''request_id'', ''claim_id'',
      ''tariff'', ''platform_status'', ''cargo_status'', ''created_at'', ''proxy_client_id'']"

definition proxy_row :: "proxy_order \<Rightarrow> row" where
  "proxy_row t =
     map_of (zip proxy_columns
       [client_order_number t, routing_order_number t, market_order_id t, request_id t,
        claim_id t, tariff t, logistic_status t, claim_status t, created_at t, client_id t])"

text \<open>
  The constructor infers the dtype of each of the ten columns from the values the
  tuples have in it: \<open>data_frame\<close> gives the tuples as the frame holds them. So an
  integer code 42 in a column that also has a \<^verbatim>\<open>None\<close> is held as the double 42.0.
\<close>

definition data_frame :: "float_conv \<Rightarrow> proxy_order list \<Rightarrow> proxy_order list" where
  "data_frame conv proxy_orders =
     map (\<lambda>t.
       \<lparr>client_order_number =
          astype conv (map client_order_number proxy_orders) (client_order_number t),
        routing_order_number =
          astype conv (map routing_order_number proxy_orders) (routing_order_number t),
        market_order_id = astype conv (map market_order_id proxy_orders) (market_order_id t),
        request_id = astype conv (map request_id proxy_orders) (request_id t),
        claim_id = astype conv (map claim_id proxy_orders) (claim_id t),
        tariff = astype conv (map tariff proxy_orders) (tariff t),
        logistic_status = astype conv (map logistic_status proxy_orders) (logistic_status t),
        claim_status = astype conv (map claim_status proxy_orders) (claim_status t),
        created_at = astype conv (map created_at proxy_orders) (created_at t),
        client_id = astype conv (map client_id proxy_orders) (client_id t)\<rparr>) proxy_orders"

text \<open>
  \<^verbatim>\<open>"_RETRY_" in s\<close>. The pattern of \<^verbatim>\<open>str.contains\<close> is a regular expression, and
  \<^verbatim>\<open>_RETRY_\<close> has no character that is special in one, so the match is a substring test.
\<close>

fun str_contains :: "string \<Rightarrow> string \<Rightarrow> bool" where
  "str_contains p [] = (p = [])"
| "str_contains p (c # s) = (take (length p) (c # s) = p \<or> str_contains p s)"

text \<open>
  Line 127: \<^verbatim>\<open>proxy_frame[~proxy_frame.external_id.str.contains("_RETRY_")]\<close>. On an
  \<^verbatim>\<open>external_id\<close> that is not a string the line raises: \<^verbatim>\<open>str.contains\<close> gives NaN
  for it and \<^verbatim>\<open>~\<close> fails on the NaN, or the column has no \<^verbatim>\<open>.str\<close> accessor at
  all. Both are \<open>MaskError\<close> here.
\<close>

definition retry_mask :: "row \<Rightarrow> error + bool" where
  "retry_mask r =
     (case r ''external_id'' of
        None \<Rightarrow> Inl KeyError
      | Some (PStr s) \<Rightarrow> Inr (str_contains ''_RETRY_'' s)
      | Some _ \<Rightarrow> Inl MaskError)"

fun drop_retry :: "frame \<Rightarrow> error + frame" where
  "drop_retry [] = Inr []"
| "drop_retry (r # rs) =
     ebind (retry_mask r) (\<lambda>m.
     ebind (drop_retry rs) (\<lambda>rs'.
       Inr (if \<not> m then r # rs' else rs')))"

text \<open>
  One row of the frame \<^verbatim>\<open>pandas.read_gbq\<close> returns for the query of lines 87 to 100,
  its fields named as the \<^verbatim>\<open>SELECT\<close> names the columns.
\<close>

record scan_event =
  scan_dttm :: pyval
  corp_client_id :: pyval
  courier_uuid :: pyval
  scanned_barcode_value :: pyval
  store_name :: pyval
  lat :: pyval
  lon :: pyval

definition scan_columns :: "string list" where
  "scan_columns =
     [''scan_dttm'', ''corp_client_id'', ''courier_uuid'', ''scanned_barcode_value'',
      ''store_name'', ''lat'', ''lon'']"

definition scan_row :: "scan_event \<Rightarrow> row" where
  "scan_row s =
     map_of (zip scan_columns
       [scan_dttm s, corp_client_id s, courier_uuid s, scanned_barcode_value s,
        store_name s, lat s, lon s])"

section \<open>Reconciliation (lines 148 to 153)\<close>

text \<open>
  The join keys of \<^verbatim>\<open>pandas.merge\<close>: two keys match when they are equal, and a null
  key matches a null key.
\<close>

definition key_match :: "pyval \<Rightarrow> pyval \<Rightarrow> bool" where
  "key_match a b = (if isna a then isna b else a = b)"

text \<open>The order columns of a scan that matches no order: all NaN.\<close>

definition nan_row :: "string list \<Rightarrow> row" where
  "nan_row cols = map_of (map (\<lambda>c. (c, NaN)) cols)"

text \<open>
  The rows a left join gives for one left row: one per matching right row, in the right
  frame's order, or one with the right columns NaN when none matches. The two frames of
  line 148 share no column name, so a joined row is the union of its two halves.
\<close>

definition join_row :: "string \<Rightarrow> string \<Rightarrow> string list \<Rightarrow> frame \<Rightarrow> row \<Rightarrow> pyval \<Rightarrow> frame" where
  "join_row left_on right_on right_cols right l k =
     (case filter (\<lambda>r. case r right_on of None \<Rightarrow> False | Some b \<Rightarrow> key_match k b) right of
        [] \<Rightarrow> [l ++ nan_row right_cols]
      | ms \<Rightarrow> map (\<lambda>r. l ++ r) ms)"

text \<open>
  The rows of \<^verbatim>\<open>pandas.merge(left, right, how="left", left_on=..., right_on=...)\<close>:
  the rows of the left frame in their order, each with its matches. A key column missing
  from a frame raises \<^verbatim>\<open>KeyError\<close>.
\<close>

fun join_left :: "frame \<Rightarrow> frame \<Rightarrow> string \<Rightarrow> string \<Rightarrow> string list \<Rightarrow> error + frame" where
  "join_left [] right left_on right_on right_cols =
     (if list_all (\<lambda>r. r right_on \<noteq> None) right then Inr [] else Inl KeyError)"
| "join_left (l # left) right left_on right_on right_cols =
     ebind (getitem l left_on) (\<lambda>k.
     ebind (join_left left right left_on right_on right_cols) (\<lambda>rest.
       Inr (join_row left_on right_on right_cols right l k @ rest)))"

text \<open>
  The merged frame of line 148, with the dtypes of its right columns. The NaN that fills
  the right columns of an unmatched row turns a right column of integers into a column of
  doubles. A right column of objects keeps its values in the merge, and the \<^verbatim>\<open>apply\<close>
  of line 149 infers its dtype again from the values that are left in it; its row
  function \<^verbatim>\<open>set_barcode_image\<close> reads no right column, so the model has the right
  columns inferred here. The left columns of line 148 are those of the scan query, whose
  values are texts (\<^verbatim>\<open>json_value\<close>) or \<^verbatim>\<open>None\<close>, which no inference changes. Both key
  columns are taken to hold texts: \<^verbatim>\<open>merge\<close> refuses to join a column of texts with a
  column of numbers, a case this model does not have.
\<close>

definition merge_left ::
    "float_conv \<Rightarrow> frame \<Rightarrow> frame \<Rightarrow> string \<Rightarrow> string \<Rightarrow> string list \<Rightarrow> error + frame" where
  "merge_left conv left right left_on right_on right_cols =
     ebind (join_left left right left_on right_on right_cols) (\<lambda>joined.
       Inr (infer_objects conv right_cols joined))"

definition reconcile :: "float_conv \<Rightarrow> frame \<Rightarrow> frame \<Rightarrow> error + frame" where
  "reconcile conv scan_frame proxy_frame =
     ebind (merge_left conv scan_frame proxy_frame ''scanned_barcode_value'' ''barcode'' proxy_columns)
       (\<lambda>merged_frame.
     ebind (apply_rows set_barcode_image merged_frame) (\<lambda>merged_frame.
     ebind (apply_rows (normalize_coordinates conv) merged_frame) (\<lambda>merged_frame.
     ebind (apply_rows normalize_tariffs merged_frame) (\<lambda>merged_frame.
     ebind (apply_rows refactor_lo_code merged_frame) (\<lambda>merged_frame.
       apply_rows set_status merged_frame)))))"

section \<open>The report (lines 155 to 187)\<close>

text \<open>\<^verbatim>\<open>frame[c]\<close>: the column of a frame, a \<^verbatim>\<open>KeyError\<close> when a row has no such label.\<close>

fun column :: "string \<Rightarrow> frame \<Rightarrow> error + pyval list" where
  "column c [] = Inr []"
| "column c (r # rs) =
     ebind (getitem r c) (\<lambda>v. ebind (column c rs) (\<lambda>vs. Inr (v # vs)))"

text \<open>
  \<^verbatim>\<open>frame[c]\<close> for a column \<open>c\<close> that a row function adds. \<^verbatim>\<open>DataFrame.apply\<close> returns
  a frame with no rows as it is, without calling the row function on any row: such a
  frame never gets the column, and reading it raises \<^verbatim>\<open>KeyError\<close>.
\<close>

definition added_column :: "string \<Rightarrow> frame \<Rightarrow> error + pyval list" where
  "added_column c fr = (if fr = [] then Inl KeyError else column c fr)"

text \<open>\<^verbatim>\<open>values.isin(sel)\<close> and \<^verbatim>\<open>frame[mask]\<close>.\<close>

definition isin :: "pyval list \<Rightarrow> pyval list \<Rightarrow> bool list" where
  "isin vs sel = map (\<lambda>v. v \<in> set sel) vs"

definition mask_rows :: "frame \<Rightarrow> bool list \<Rightarrow> frame" where
  "mask_rows fr keep = map fst (filter snd (zip fr keep))"

text \<open>
  One of the four filters of lines 173 to 183:
  \<^verbatim>\<open>if sel: frame = frame[frame[c].isin(sel)]\<close>. An empty selection is falsy.
\<close>

definition filter_by :: "string \<Rightarrow> pyval list \<Rightarrow> frame \<Rightarrow> error + frame" where
  "filter_by c sel fr =
     (if sel \<noteq> [] then ebind (column c fr) (\<lambda>vs. Inr (mask_rows fr (isin vs sel)))
      else Inr fr)"

text \<open>What the user picked in the four multi-selects of lines 155 to 165.\<close>

record selections =
  couriers :: "pyval list"
  clients :: "pyval list"
  tariffs :: "pyval list"
  filtered_statuses :: "pyval list"

definition apply_filters :: "selections \<Rightarrow> frame \<Rightarrow> error + frame" where
  "apply_filters sel merged_frame =
     ebind (filter_by ''courier_uuid'' (couriers sel) merged_frame) (\<lambda>merged_frame.
     ebind (filter_by ''corp_client_id'' (clients sel) merged_frame) (\<lambda>merged_frame.
     ebind (filter_by ''tariff'' (tariffs sel) merged_frame) (\<lambda>merged_frame.
       filter_by ''pick_status'' (filtered_statuses sel) merged_frame)))"

text \<open>\<^verbatim>\<open>frame[[c1, c2, ...]]\<close>: the listed columns, a \<^verbatim>\<open>KeyError\<close> when one is missing.\<close>

definition select_columns :: "string list \<Rightarrow> row \<Rightarrow> error + row" where
  "select_columns cols r =
     (if list_all (\<lambda>c. r c \<noteq> None) cols then Inr (r |` set cols) else Inl KeyError)"

definition visible_columns :: "string list" where
  "visible_columns =
     [''scan_dttm'', ''created_at'', ''scanned_barcode_value'', ''pick_status'', ''tariff'',
      ''corp_client_id'', ''store_name'', ''courier_uuid'', ''external_id'', ''lo_code'',
      ''claim_id'', ''scannable_qr'']"

text \<open>
  What the page shows: the two metrics of lines 167 to 171 and the table of lines 185 to
  194, which is also the sheet of the download.
\<close>

record report =
  scan_events :: nat
  scan_errors :: nat
  visible_frame :: frame

text \<open>
  The script from line 124 on, for the tuples of the order query, the rows of the scan
  query and the user's selections. The options of the four multi-selects are the values
  of four columns (lines 155 to 165); the last of them, \<^verbatim>\<open>pick_status\<close>, is a column
  the row functions add.
\<close>

definition first_mile_monitor ::
    "float_conv \<Rightarrow> proxy_order list \<Rightarrow> scan_event list \<Rightarrow> selections \<Rightarrow> error + report" where
  "first_mile_monitor conv proxy_orders scans sel =
     ebind (drop_retry (map proxy_row (data_frame conv proxy_orders))) (\<lambda>proxy_frame.
     ebind (reconcile conv (map scan_row scans) proxy_frame) (\<lambda>merged_frame.
     ebind (column ''courier_uuid'' merged_frame) (\<lambda>courier_options.
     ebind (column ''corp_client_id'' merged_frame) (\<lambda>client_options.
     ebind (column ''tariff'' merged_frame) (\<lambda>tariff_options.
     ebind (added_column ''pick_status'' merged_frame) (\<lambda>status_options.
     ebind (column ''pick_status'' merged_frame) (\<lambda>statuses.
     ebind (apply_filters sel merged_frame) (\<lambda>filtered_frame.
     ebind (apply_rows (select_columns visible_columns) filtered_frame) (\<lambda>visible.
       Inr \<lparr>scan_events = length merged_frame,
            scan_errors = length (filter (\<lambda>v. v = PStr ''Missing'') statuses),
            visible_frame = visible\<rparr>)))))))))"

section \<open>The time window of the scan query (lines 75 to 86)\<close>










section \<open>Notions used to state the properties\<close>

text \<open>
  The five row functions of lines 149 to 153 on one row, in the script's order. The
  script runs each of them over the whole frame before the next; \<open>reconcile_rows\<close> below
  shows that the frame it ends with is this function on every joined row.
\<close>

definition reconcile_row :: "float_conv \<Rightarrow> row \<Rightarrow> error + row" where
  "reconcile_row conv r =
     ebind (set_barcode_image r) (\<lambda>r.
     ebind (normalize_coordinates conv r) (\<lambda>r.
     ebind (normalize_tariffs r) (\<lambda>r.
     ebind (refactor_lo_code r) set_status)))"

text \<open>The orders whose barcode matches the code of a scan, in the order of the list.\<close>

definition matching :: "proxy_order list \<Rightarrow> scan_event \<Rightarrow> proxy_order list" where
  "matching orders s =
     filter (\<lambda>t. key_match (scanned_barcode_value s) (client_order_number t)) orders"

text \<open>
  The pairs of the left join: every scan, in the order of the scans, with each of the
  orders that match it, or with no order when none matches; and the joined row of a pair.
\<close>

definition join_pairs :: "proxy_order list \<Rightarrow> scan_event list \<Rightarrow> (scan_event \<times> proxy_order option) list" where
  "join_pairs orders scans =
     concat (map (\<lambda>s. if matching orders s = [] then [(s, None)]
                       else map (\<lambda>t. (s, Some t)) (matching orders s)) scans)"

fun pair_row :: "scan_event \<times> proxy_order option \<Rightarrow> row" where
  "pair_row (s, None) = scan_row s ++ nan_row proxy_columns"
| "pair_row (s, Some t) = scan_row s ++ proxy_row t"

text \<open>The three tariff labels, as the specification words them.\<close>

definition tariff_label :: "pyval \<Rightarrow> string" where
  "tariff_label t = (if isna t then ''Unknown'' else if eq_zero t then ''SDD'' else ''NDD'')"

text \<open>The three pick statuses, from the barcode and the claim id of the joined row.\<close>

definition pick_status_of :: "pyval \<Rightarrow> pyval \<Rightarrow> string" where
  "pick_status_of b c = (if isna b then ''Missing'' else if isna c then ''Picked'' else ''Received'')"

text \<open>The shown order code: a null code as it is, any other with the prefix.\<close>

definition lo_code_display :: "pyval \<Rightarrow> pyval" where
  "lo_code_display v = (if isna v then v else PStr (''LO-'' @ py_str v))"

text \<open>
  A redelivery order: its routing number, the \<^verbatim>\<open>external_id\<close> of the frame, is a string
  that contains the marker \<^verbatim>\<open>_RETRY_\<close>.
\<close>

definition is_retry :: "proxy_order \<Rightarrow> bool" where
  "is_retry t = (case routing_order_number t of PStr s \<Rightarrow> str_contains ''_RETRY_'' s | _ \<Rightarrow> False)"

text \<open>A value that \<^verbatim>\<open>float\<close> accepts.\<close>

definition coercible :: "float_conv \<Rightarrow> pyval \<Rightarrow> bool" where
  "coercible conv v = (case py_float conv v of Inl _ \<Rightarrow> False | Inr _ \<Rightarrow> True)"

text \<open>
  The specification's reading of a filter set: a record passes when, for every selection
  that is not empty, its value in the selection's column is a member.
\<close>

definition member_of :: "pyval list \<Rightarrow> pyval option \<Rightarrow> bool" where
  "member_of sel v = (sel = [] \<or> (\<exists>x \<in> set sel. v = Some x))"

definition passes :: "selections \<Rightarrow> row \<Rightarrow> bool" where
  "passes sel r \<longleftrightarrow>
     member_of (couriers sel) (r ''courier_uuid'') \<and>
     member_of (clients sel) (r ''corp_client_id'') \<and>
     member_of (tariffs sel) (r ''tariff'') \<and>
     member_of (filtered_statuses sel) (r ''pick_status'')"

section \<open>Sample data\<close>

text \<open>
  The scans and orders of the specification's examples: the code \<^verbatim>\<open>XYZ999\<close> has an
  order, once without and once with a claim; the code \<^verbatim>\<open>ABC123\<close> has none. The
  \<^verbatim>\<open>lo_code\<close> of the first order is the text \<^verbatim>\<open>42\<close>, in \<open>order_numbered\<close> the
  integer 42. The conversion table lists what \<^verbatim>\<open>float\<close> gives for the two
  coordinates and the three integers used.
\<close>

definition sample_conv :: float_conv where
  "sample_conv =
     \<lparr>str_to_float = map_of [(''-33.45'', ''-33.45''), (''-70.66'', ''-70.66'')],
      int_to_float = map_of [(0, ''0.0''), (1, ''1.0''), (42, ''42.0'')]\<rparr>"

definition order_xyz :: proxy_order where
  "order_xyz =
     \<lparr>client_order_number = PStr ''XYZ999'', routing_order_number = PStr ''EXT-1'',
      market_order_id = PStr ''42'', request_id = PNone, claim_id = PNone, tariff = PInt 0,
      logistic_status = PStr ''created'', claim_status = PNone,
      created_at = PStr ''2023-08-02 10:00:00'', client_id = PStr ''client-1''\<rparr>"

definition order_claimed :: proxy_order where
  "order_claimed = order_xyz\<lparr>claim_id := PStr ''CL-1'', tariff := PInt 1, market_order_id := PNone\<rparr>"

definition order_numbered :: proxy_order where
  "order_numbered = order_xyz\<lparr>market_order_id := PInt 42\<rparr>"

definition order_retry :: proxy_order where
  "order_retry = order_xyz\<lparr>routing_order_number := PStr ''EXT-1_RETRY_1''\<rparr>"

definition scan_xyz :: scan_event where
  "scan_xyz =
     \<lparr>scan_dttm = PStr ''2023-08-03 09:30:00'', corp_client_id = PStr ''corp-1'',
      courier_uuid = PStr ''courier-1'', scanned_barcode_value = PStr ''XYZ999'',
      store_name = PStr ''store-1'', lat = PStr ''-33.45'', lon = PStr ''-70.66''\<rparr>"

definition scan_abc :: scan_event where
  "scan_abc = scan_xyz\<lparr>scanned_barcode_value := PStr ''ABC123'', courier_uuid := PStr ''courier-2''\<rparr>"

definition scan_no_location :: scan_event where
  "scan_no_location = scan_xyz\<lparr>lat := PNone\<rparr>"

section \<open>Auxiliary facts\<close>


lemma ebind_Inl [simp]: "ebind (Inl e) f = Inl e"
  by (simp add: ebind_def)

lemma ebind_Inr [simp]: "ebind (Inr x) f = f x"
  by (simp add: ebind_def)

lemma ebind_eq_Inr: "ebind m f = Inr y \<longleftrightarrow> (\<exists>x. m = Inr x \<and> f x = Inr y)"
  by (cases m) auto

lemma getitem_eq_Inr: "getitem r c = Inr v \<longleftrightarrow> r c = Some v"
  by (simp add: getitem_def split: option.splits)

lemma apply_rows_Inr:
  "apply_rows f rs = Inr out \<longleftrightarrow> list_all2 (\<lambda>r r'. f r = Inr r') rs out"
proof (induction rs arbitrary: out)
  case Nil
  show ?case by auto
next
  case (Cons r rs)
  show ?case
    by (auto simp: ebind_eq_Inr Cons.IH list_all2_Cons1)
qed


lemma getitem_None [simp]: "r c = None \<Longrightarrow> getitem r c = Inl KeyError"
  by (simp add: getitem_def)

lemma getitem_Some [simp]: "r c = Some v \<Longrightarrow> getitem r c = Inr v"
  by (simp add: getitem_def)

lemma normalize_tariffs_Inr:
  "normalize_tariffs r = Inr r' \<longleftrightarrow>
     (\<exists>t. r ''tariff'' = Some t \<and>
        r' = r(''tariff'' \<mapsto> PStr (if isna t then ''Unknown'' else if eq_zero t then ''SDD'' else ''NDD'')))"
proof (cases "r ''tariff''")
  case None
  then show ?thesis by (simp add: normalize_tariffs_def)
next
  case (Some t)
  then show ?thesis by (auto simp: normalize_tariffs_def)
qed

lemma set_status_Inr:
  "set_status r = Inr r' \<longleftrightarrow>
     (\<exists>b. r ''barcode'' = Some b \<and>
        (if isna b then r' = r(''pick_status'' \<mapsto> PStr ''Missing'')
         else \<exists>c. r ''claim_id'' = Some c \<and>
                r' = r(''pick_status'' \<mapsto> PStr (if isna c then ''Picked'' else ''Received''))))"
proof (cases "r ''barcode''")
  case None
  then show ?thesis by (simp add: set_status_def)
next
  case b: (Some b)
  show ?thesis
  proof (cases "r ''claim_id''")
    case None
    with b show ?thesis by (auto simp: set_status_def)
  next
    case (Some c)
    with b show ?thesis by (auto simp: set_status_def)
  qed
qed

lemma refactor_lo_code_Inr:
  "refactor_lo_code r = Inr r' \<longleftrightarrow>
     (\<exists>v. r ''lo_code'' = Some v \<and>
        r' = r(''lo_code'' \<mapsto> (if isna v then v else PStr (''LO-'' @ py_str v))))"
proof (cases "r ''lo_code''")
  case None
  then show ?thesis by (simp add: refactor_lo_code_def)
next
  case (Some v)
  then show ?thesis by (auto simp: refactor_lo_code_def map_upd_triv)
qed

lemma set_barcode_image_Inr:
  "set_barcode_image r = Inr r' \<longleftrightarrow>
     (\<exists>v. r ''scanned_barcode_value'' = Some v \<and>
        r' = r(''scannable_qr'' \<mapsto> PStr (''http://qrcoder.ru/code/?'' @ py_str v @ ''&4&0'')))"
proof (cases "r ''scanned_barcode_value''")
  case None
  then show ?thesis by (simp add: set_barcode_image_def)
next
  case (Some v)
  then show ?thesis by (auto simp: set_barcode_image_def)
qed

lemma normalize_coordinates_Inr:
  "normalize_coordinates conv r = Inr r' \<longleftrightarrow>
     (\<exists>a b x y. r ''lat'' = Some a \<and> r ''lon'' = Some b \<and>
        py_float conv a = Inr x \<and> py_float conv b = Inr y \<and>
        r' = r(''lat'' \<mapsto> x, ''lon'' \<mapsto> y))"
proof (cases "r ''lat''")
  case None
  then show ?thesis by (simp add: normalize_coordinates_def)
next
  case a: (Some a)
  show ?thesis
  proof (cases "py_float conv a")
    case (Inl e)
    with a show ?thesis by (simp add: normalize_coordinates_def)
  next
    case x: (Inr x)
    show ?thesis
    proof (cases "r ''lon''")
      case None
      with a x show ?thesis by (simp add: normalize_coordinates_def)
    next
      case b: (Some b)
      show ?thesis
      proof (cases "py_float conv b")
        case (Inl e)
        with a x b show ?thesis by (simp add: normalize_coordinates_def)
      next
        case (Inr y)
        with a x b show ?thesis by (auto simp: normalize_coordinates_def)
      qed
    qed
  qed
qed


lemma list_all2_compose:
  "(\<exists>ys. list_all2 P xs ys \<and> list_all2 Q ys zs) \<longleftrightarrow> list_all2 (\<lambda>x z. \<exists>y. P x y \<and> Q y z) xs zs"
proof -
  have "list_all2 (P OO Q) xs zs = (list_all2 P OO list_all2 Q) xs zs"
    by (simp add: list.rel_compp)
  then show ?thesis by (auto simp: OO_def relcompp_apply)
qed

lemma astype_str [simp]: "astype conv vs (PStr s) = PStr s"
  by (simp add: astype_def)

lemma astype_float [simp]: "astype conv vs (PFloat f) = PFloat f"
  by (simp add: astype_def)

lemma as_float64_eq_str: "as_float64 conv v = PStr s \<longleftrightarrow> v = PStr s"
  by (cases v) (simp_all split: option.splits)

lemma astype_eq_str: "astype conv vs v = PStr s \<longleftrightarrow> v = PStr s"
  by (simp add: astype_def as_float64_eq_str)

lemma astype_cases: "astype conv vs v = v \<or> astype conv vs v = as_float64 conv v"
  by (simp add: astype_def)

lemma isna_as_float64: "isna v \<Longrightarrow> isna (as_float64 conv v)"
  by (cases v) simp_all

lemma isna_astype: "isna v \<Longrightarrow> isna (astype conv vs v)"
  by (simp add: astype_def isna_as_float64)

lemma infer_objects_length [simp]: "length (infer_objects conv cols fr) = length fr"
  by (simp add: infer_objects_def)

lemma infer_objects_row:
  assumes "m \<in> set (infer_objects conv cols fr)"
  shows "\<exists>j \<in> set fr. \<forall>c. m c =
           (if c \<in> set cols then map_option (astype conv (column_values c fr)) (j c) else j c)"
  using assms unfolding infer_objects_def by auto

lemma infer_objects_rel:
  "list_all2 (\<lambda>j m. \<forall>c. m c =
      (if c \<in> set cols then map_option (astype conv (column_values c fr)) (j c) else j c))
     fr (infer_objects conv cols fr)"
  unfolding infer_objects_def list_all2_map2 by (rule list_all2_refl) simp

lemma merge_left_Inr:
  "merge_left conv left right lo ro cols = Inr merged \<longleftrightarrow>
     (\<exists>joined. join_left left right lo ro cols = Inr joined \<and> merged = infer_objects conv cols joined)"
  unfolding merge_left_def ebind_eq_Inr by auto

lemma reconcile_row_Inr_iff:
  "reconcile_row conv m = Inr r \<longleftrightarrow>
     (\<exists>r1 r2 r3 r4. set_barcode_image m = Inr r1 \<and> normalize_coordinates conv r1 = Inr r2 \<and>
        normalize_tariffs r2 = Inr r3 \<and> refactor_lo_code r3 = Inr r4 \<and> set_status r4 = Inr r)"
  unfolding reconcile_row_def ebind_eq_Inr by blast

lemma reconcile_rows:
  "reconcile conv sf pf = Inr out \<longleftrightarrow>
     (\<exists>merged. merge_left conv sf pf ''scanned_barcode_value'' ''barcode'' proxy_columns = Inr merged \<and>
        list_all2 (\<lambda>m r. reconcile_row conv m = Inr r) merged out)"
proof -
  have "reconcile conv sf pf = Inr out \<longleftrightarrow>
     (\<exists>merged. merge_left conv sf pf ''scanned_barcode_value'' ''barcode'' proxy_columns = Inr merged \<and>
       (\<exists>m1. list_all2 (\<lambda>r r'. set_barcode_image r = Inr r') merged m1 \<and>
       (\<exists>m2. list_all2 (\<lambda>r r'. normalize_coordinates conv r = Inr r') m1 m2 \<and>
       (\<exists>m3. list_all2 (\<lambda>r r'. normalize_tariffs r = Inr r') m2 m3 \<and>
       (\<exists>m4. list_all2 (\<lambda>r r'. refactor_lo_code r = Inr r') m3 m4 \<and>
         list_all2 (\<lambda>r r'. set_status r = Inr r') m4 out)))))"
    unfolding reconcile_def ebind_eq_Inr apply_rows_Inr by blast
  also have "\<dots> \<longleftrightarrow> (\<exists>merged. merge_left conv sf pf ''scanned_barcode_value'' ''barcode'' proxy_columns = Inr merged \<and>
        list_all2 (\<lambda>m r. reconcile_row conv m = Inr r) merged out)"
    unfolding list_all2_compose reconcile_row_Inr_iff by (simp add: ex_simps)
  finally show ?thesis .
qed

lemma scan_row_fields:
  "scan_row s ''scan_dttm'' = Some (scan_dttm s)"
  "scan_row s ''corp_client_id'' = Some (corp_client_id s)"
  "scan_row s ''courier_uuid'' = Some (courier_uuid s)"
  "scan_row s ''scanned_barcode_value'' = Some (scanned_barcode_value s)"
  "scan_row s ''store_name'' = Some (store_name s)"
  "scan_row s ''lat'' = Some (lat s)"
  "scan_row s ''lon'' = Some (lon s)"
  by (simp_all add: scan_row_def scan_columns_def)

lemma scan_row_dom: "scan_row s c \<noteq> None \<longleftrightarrow> c \<in> set scan_columns"
  by (simp add: scan_row_def scan_columns_def)

lemma proxy_row_fields:
  "proxy_row t ''barcode'' = Some (client_order_number t)"
  "proxy_row t ''external_id'' = Some (routing_order_number t)"
  "proxy_row t ''lo_code'' = Some (market_order_id t)"
  "proxy_row t ''request_id'' = Some (request_id t)"
  "proxy_row t ''claim_id'' = Some (claim_id t)"
  "proxy_row t ''tariff'' = Some (tariff t)"
  "proxy_row t ''platform_status'' = Some (logistic_status t)"
  "proxy_row t ''cargo_status'' = Some (claim_status t)"
  "proxy_row t ''created_at'' = Some (created_at t)"
  "proxy_row t ''proxy_client_id'' = Some (client_id t)"
  by (simp_all add: proxy_row_def proxy_columns_def)

lemma proxy_row_dom: "proxy_row t c \<noteq> None \<longleftrightarrow> c \<in> set proxy_columns"
  by (simp add: proxy_row_def proxy_columns_def)

lemma nan_row_apply: "nan_row cols c = (if c \<in> set cols then Some NaN else None)"
  by (induction cols) (auto simp: nan_row_def)

lemma columns_disjoint: "c \<in> set scan_columns \<Longrightarrow> c \<notin> set proxy_columns"
  by (auto simp: scan_columns_def proxy_columns_def)


lemma join_row_proxy:
  "join_row lo ''barcode'' cols (map proxy_row orders) l k =
     (if filter (\<lambda>t. key_match k (client_order_number t)) orders = [] then [l ++ nan_row cols]
      else map (\<lambda>t. l ++ proxy_row t) (filter (\<lambda>t. key_match k (client_order_number t)) orders))"
proof -
  have eq: "filter (\<lambda>r. case r ''barcode'' of None \<Rightarrow> False | Some b \<Rightarrow> key_match k b) (map proxy_row orders)
        = map proxy_row (filter (\<lambda>t. key_match k (client_order_number t)) orders)"
    by (simp add: filter_map comp_def proxy_row_fields)
  show ?thesis
    unfolding join_row_def eq
    by (cases "filter (\<lambda>t. key_match k (client_order_number t)) orders") simp_all
qed

lemma join_left_proxy_nil:
  "join_left [] (map proxy_row orders) lo ''barcode'' cols = Inr []"
  by (auto simp: list_all_iff proxy_row_fields)

lemma join_left_typed:
  "join_left (map scan_row scans) (map proxy_row orders) ''scanned_barcode_value'' ''barcode'' proxy_columns =
     Inr (concat (map (\<lambda>s. if matching orders s = [] then [scan_row s ++ nan_row proxy_columns]
                            else map (\<lambda>t. scan_row s ++ proxy_row t) (matching orders s)) scans))"
proof (induction scans)
  case Nil
  show ?case by (simp add: join_left_proxy_nil del: join_left.simps)
next
  case (Cons s scans)
  show ?case
    by (simp add: Cons.IH scan_row_fields join_row_proxy matching_def)
qed

lemma joined_scan_cols:
  assumes "c \<in> set scan_columns"
  shows "(scan_row s ++ proxy_row t) c = scan_row s c" "(scan_row s ++ nan_row proxy_columns) c = scan_row s c"
  using columns_disjoint[OF assms] proxy_row_dom[of t c]
  by (auto simp: map_add_def nan_row_apply split: option.splits)

lemma joined_proxy_cols:
  assumes "c \<in> set proxy_columns"
  shows "(scan_row s ++ proxy_row t) c = proxy_row t c" "(scan_row s ++ nan_row proxy_columns) c = Some NaN"
  using assms proxy_row_dom[of t c]
  by (auto simp: map_add_def nan_row_apply split: option.splits)

lemma length_concat_ge:
  assumes "\<And>x. x \<in> set xs \<Longrightarrow> 1 \<le> length (f x)"
  shows "length xs \<le> length (concat (map f xs))"
  using assms
proof (induction xs)
  case Nil
  show ?case by simp
next
  case (Cons a xs)
  have "1 \<le> length (f a)" by (rule Cons.prems) simp
  moreover have "length xs \<le> length (concat (map f xs))"
    using Cons.prems by (intro Cons.IH) auto
  ultimately show ?case by simp
qed

lemma reconcile_row_result:
  assumes "reconcile_row conv m = Inr r"
  shows "\<exists>code a b x y t v bc c.
           m ''scanned_barcode_value'' = Some code \<and> m ''lat'' = Some a \<and> m ''lon'' = Some b \<and>
           py_float conv a = Inr x \<and> py_float conv b = Inr y \<and>
           m ''tariff'' = Some t \<and> m ''lo_code'' = Some v \<and> m ''barcode'' = Some bc \<and>
           (isna bc \<or> m ''claim_id'' = Some c) \<and>
           r = m(''scannable_qr'' \<mapsto> PStr (''http://qrcoder.ru/code/?'' @ py_str code @ ''&4&0''),
                 ''lat'' \<mapsto> x, ''lon'' \<mapsto> y,
                 ''tariff'' \<mapsto> PStr (tariff_label t),
                 ''lo_code'' \<mapsto> lo_code_display v,
                 ''pick_status'' \<mapsto> PStr (pick_status_of bc c))"
proof -
  from assms obtain r1 r2 r3 r4 where
    1: "set_barcode_image m = Inr r1" and 2: "normalize_coordinates conv r1 = Inr r2" and
    3: "normalize_tariffs r2 = Inr r3" and 4: "refactor_lo_code r3 = Inr r4" and
    5: "set_status r4 = Inr r"
    unfolding reconcile_row_Inr_iff by blast
  from 1 obtain code where code: "m ''scanned_barcode_value'' = Some code"
    and r1: "r1 = m(''scannable_qr'' \<mapsto> PStr (''http://qrcoder.ru/code/?'' @ py_str code @ ''&4&0''))"
    unfolding set_barcode_image_Inr by blast
  from 2 obtain a b x y where a: "r1 ''lat'' = Some a" and b: "r1 ''lon'' = Some b"
    and x: "py_float conv a = Inr x" and y: "py_float conv b = Inr y"
    and r2: "r2 = r1(''lat'' \<mapsto> x, ''lon'' \<mapsto> y)"
    unfolding normalize_coordinates_Inr by blast
  from 3 obtain t where t: "r2 ''tariff'' = Some t"
    and r3: "r3 = r2(''tariff'' \<mapsto> PStr (tariff_label t))"
    unfolding normalize_tariffs_Inr tariff_label_def by blast
  from 4 obtain v where v: "r3 ''lo_code'' = Some v"
    and r4: "r4 = r3(''lo_code'' \<mapsto> lo_code_display v)"
    unfolding refactor_lo_code_Inr lo_code_display_def by blast
  from 5 obtain bc where bc: "r4 ''barcode'' = Some bc"
    and st: "if isna bc then r = r4(''pick_status'' \<mapsto> PStr ''Missing'')
         else \<exists>c. r4 ''claim_id'' = Some c \<and>
                r = r4(''pick_status'' \<mapsto> PStr (if isna c then ''Picked'' else ''Received''))"
    unfolding set_status_Inr by blast
  from st obtain c where c: "isna bc \<or> r4 ''claim_id'' = Some c"
    and r: "r = r4(''pick_status'' \<mapsto> PStr (pick_status_of bc c))"
    by (auto simp: pick_status_of_def split: if_splits)
  have "m ''lat'' = Some a" "m ''lon'' = Some b" using a b by (simp_all add: r1)
  moreover have "m ''tariff'' = Some t" using t by (simp add: r1 r2)
  moreover have "m ''lo_code'' = Some v" using v by (simp add: r1 r2 r3)
  moreover have "m ''barcode'' = Some bc" using bc by (simp add: r1 r2 r3 r4)
  moreover have "isna bc \<or> m ''claim_id'' = Some c" using c by (simp add: r1 r2 r3 r4)
  moreover have "r = m(''scannable_qr'' \<mapsto> PStr (''http://qrcoder.ru/code/?'' @ py_str code @ ''&4&0''),
                 ''lat'' \<mapsto> x, ''lon'' \<mapsto> y,
                 ''tariff'' \<mapsto> PStr (tariff_label t),
                 ''lo_code'' \<mapsto> lo_code_display v,
                 ''pick_status'' \<mapsto> PStr (pick_status_of bc c))"
    by (simp only: r r4 r3 r2 r1)
  ultimately show ?thesis using code x y by blast
qed

lemma reconcile_row_total:
  assumes "m ''scanned_barcode_value'' = Some code" "m ''lat'' = Some a" "m ''lon'' = Some b"
    "py_float conv a = Inr x" "py_float conv b = Inr y"
    "m ''tariff'' = Some t" "m ''lo_code'' = Some v" "m ''barcode'' = Some bc" "m ''claim_id'' = Some c"
  shows "\<exists>r. reconcile_row conv m = Inr r"
  using assms
  by (simp add: reconcile_row_def set_barcode_image_def normalize_coordinates_def
      normalize_tariffs_def refactor_lo_code_def set_status_def)

lemmas sample_defs = sample_conv_def order_xyz_def order_claimed_def order_retry_def scan_xyz_def scan_abc_def
  scan_no_location_def

lemma sample_run:
  "\<exists>r1 r2 r3. reconcile sample_conv (map scan_row [scan_xyz, scan_abc]) (map proxy_row [order_xyz, order_claimed])
        = Inr [r1, r2, r3]
     \<and> r1 ''barcode'' = Some (PStr ''XYZ999'') \<and> r1 ''claim_id'' = Some PNone
     \<and> r1 ''pick_status'' = Some (PStr ''Picked'') \<and> r1 ''tariff'' = Some (PStr ''SDD'')
     \<and> r1 ''lo_code'' = Some (PStr ''LO-42'')
     \<and> r1 ''courier_uuid'' = Some (PStr ''courier-1'') \<and> r1 ''corp_client_id'' = Some (PStr ''corp-1'')
     \<and> r2 ''pick_status'' = Some (PStr ''Received'') \<and> r2 ''tariff'' = Some (PStr ''NDD'')
     \<and> r2 ''lo_code'' = Some PNone
     \<and> r2 ''courier_uuid'' = Some (PStr ''courier-1'') \<and> r2 ''corp_client_id'' = Some (PStr ''corp-1'')
     \<and> r3 ''pick_status'' = Some (PStr ''Missing'') \<and> r3 ''tariff'' = Some (PStr ''Unknown'')
     \<and> r3 ''lo_code'' = Some NaN \<and> r3 ''barcode'' = Some NaN
     \<and> r3 ''courier_uuid'' = Some (PStr ''courier-2'') \<and> r3 ''corp_client_id'' = Some (PStr ''corp-1'')"
  by (simp add: reconcile_def merge_left_def infer_objects_def column_values_def
      List.map_filter_simps astype_def float64_column_def sample_defs scan_row_def proxy_row_def scan_columns_def proxy_columns_def
      join_row_def key_match_def nan_row_def set_barcode_image_def normalize_coordinates_def py_float_def
      normalize_tariffs_def refactor_lo_code_def set_status_def str_int_def digits10.simps)

lemma list_all2_pick:
  assumes "list_all2 P xs ys" and "y \<in> set ys"
  shows "\<exists>x \<in> set xs. P x y"
  using assms by (induction rule: list_all2_induct) auto

lemma reconcile_record:
  assumes "reconcile conv scan_frame proxy_frame = Inr out" and "r \<in> set out"
  shows "\<exists>merged m. merge_left conv scan_frame proxy_frame ''scanned_barcode_value'' ''barcode'' proxy_columns
            = Inr merged \<and> m \<in> set merged \<and> reconcile_row conv m = Inr r"
proof -
  from assms(1) obtain merged where
    m: "merge_left conv scan_frame proxy_frame ''scanned_barcode_value'' ''barcode'' proxy_columns = Inr merged"
    and all: "list_all2 (\<lambda>m r. reconcile_row conv m = Inr r) merged out"
    unfolding reconcile_rows by blast
  from list_all2_pick[OF all assms(2)] obtain m' where "m' \<in> set merged" "reconcile_row conv m' = Inr r"
    by blast
  with m show ?thesis by blast
qed

lemma joined_order_fields:
  "(l ++ proxy_row t) ''barcode'' = Some (client_order_number t)"
  "(l ++ proxy_row t) ''external_id'' = Some (routing_order_number t)"
  "(l ++ proxy_row t) ''lo_code'' = Some (market_order_id t)"
  "(l ++ proxy_row t) ''request_id'' = Some (request_id t)"
  "(l ++ proxy_row t) ''claim_id'' = Some (claim_id t)"
  "(l ++ proxy_row t) ''tariff'' = Some (tariff t)"
  "(l ++ proxy_row t) ''platform_status'' = Some (logistic_status t)"
  "(l ++ proxy_row t) ''cargo_status'' = Some (claim_status t)"
  "(l ++ proxy_row t) ''created_at'' = Some (created_at t)"
  "(l ++ proxy_row t) ''proxy_client_id'' = Some (client_id t)"
  by (simp_all add: map_add_def proxy_row_fields)

lemma unmatched_order_fields:
  "(l ++ nan_row proxy_columns) ''barcode'' = Some NaN"
  "(l ++ nan_row proxy_columns) ''external_id'' = Some NaN"
  "(l ++ nan_row proxy_columns) ''lo_code'' = Some NaN"
  "(l ++ nan_row proxy_columns) ''request_id'' = Some NaN"
  "(l ++ nan_row proxy_columns) ''claim_id'' = Some NaN"
  "(l ++ nan_row proxy_columns) ''tariff'' = Some NaN"
  "(l ++ nan_row proxy_columns) ''platform_status'' = Some NaN"
  "(l ++ nan_row proxy_columns) ''cargo_status'' = Some NaN"
  "(l ++ nan_row proxy_columns) ''created_at'' = Some NaN"
  "(l ++ nan_row proxy_columns) ''proxy_client_id'' = Some NaN"
  by (simp_all add: map_add_def nan_row_apply proxy_columns_def)

lemma joined_scan_fields:
  "(scan_row s ++ proxy_row t) ''scan_dttm'' = Some (scan_dttm s)"
  "(scan_row s ++ proxy_row t) ''corp_client_id'' = Some (corp_client_id s)"
  "(scan_row s ++ proxy_row t) ''courier_uuid'' = Some (courier_uuid s)"
  "(scan_row s ++ proxy_row t) ''scanned_barcode_value'' = Some (scanned_barcode_value s)"
  "(scan_row s ++ proxy_row t) ''store_name'' = Some (store_name s)"
  "(scan_row s ++ proxy_row t) ''lat'' = Some (lat s)"
  "(scan_row s ++ proxy_row t) ''lon'' = Some (lon s)"
  by (simp_all add: joined_scan_cols scan_columns_def scan_row_fields)

lemma unmatched_scan_fields:
  "(scan_row s ++ nan_row proxy_columns) ''scan_dttm'' = Some (scan_dttm s)"
  "(scan_row s ++ nan_row proxy_columns) ''corp_client_id'' = Some (corp_client_id s)"
  "(scan_row s ++ nan_row proxy_columns) ''courier_uuid'' = Some (courier_uuid s)"
  "(scan_row s ++ nan_row proxy_columns) ''scanned_barcode_value'' = Some (scanned_barcode_value s)"
  "(scan_row s ++ nan_row proxy_columns) ''store_name'' = Some (store_name s)"
  "(scan_row s ++ nan_row proxy_columns) ''lat'' = Some (lat s)"
  "(scan_row s ++ nan_row proxy_columns) ''lon'' = Some (lon s)"
  by (simp_all add: joined_scan_cols scan_columns_def scan_row_fields)

lemmas joined_fields =
  joined_order_fields unmatched_order_fields joined_scan_fields unmatched_scan_fields

lemma sample_matching:
  "matching [order_xyz, order_claimed] scan_xyz = [order_xyz, order_claimed]"
  "matching [order_xyz, order_claimed] scan_abc = []"
  by (simp_all add: matching_def key_match_def scan_xyz_def scan_abc_def order_xyz_def order_claimed_def)

lemma sample_merged:
  "join_left (map scan_row [scan_xyz, scan_abc]) (map proxy_row [order_xyz, order_claimed])
     ''scanned_barcode_value'' ''barcode'' proxy_columns =
   Inr [scan_row scan_xyz ++ proxy_row order_xyz, scan_row scan_xyz ++ proxy_row order_claimed,
        scan_row scan_abc ++ nan_row proxy_columns]"
  unfolding join_left_typed by (simp add: sample_matching)

lemma column_Inr: "column c fr = Inr vs \<longleftrightarrow> list_all2 (\<lambda>r v. r c = Some v) fr vs"
proof (induction fr arbitrary: vs)
  case Nil
  show ?case by auto
next
  case (Cons r fr)
  show ?case
    by (auto simp: ebind_eq_Inr getitem_eq_Inr Cons.IH list_all2_Cons1)
qed

lemma column_total:
  assumes "\<forall>r \<in> set fr. r c \<noteq> None"
  shows "\<exists>vs. column c fr = Inr vs"
  using assms by (induction fr) auto

lemma column_defined:
  assumes "column c fr = Inr vs" and "r \<in> set fr"
  shows "r c \<noteq> None"
  using assms by (induction fr arbitrary: vs) (auto simp: ebind_eq_Inr getitem_eq_Inr)

lemma mask_rows_isin:
  assumes "list_all2 (\<lambda>r v. r c = Some v) fr vs"
  shows "mask_rows fr (isin vs sel) = filter (\<lambda>r. \<exists>x \<in> set sel. r c = Some x) fr"
  using assms
  by (induction rule: list_all2_induct) (auto simp: mask_rows_def isin_def)

lemma filter_by_Inr:
  assumes "filter_by c sel fr = Inr out"
  shows "out = filter (\<lambda>r. member_of sel (r c)) fr"
proof (cases "sel = []")
  case True
  with assms show ?thesis by (simp add: filter_by_def member_of_def)
next
  case False
  with assms obtain vs where vs: "column c fr = Inr vs" and out: "out = mask_rows fr (isin vs sel)"
    by (auto simp: filter_by_def ebind_eq_Inr)
  from vs have "list_all2 (\<lambda>r v. r c = Some v) fr vs" by (simp add: column_Inr)
  from mask_rows_isin[OF this] out False show ?thesis
    by (simp add: member_of_def)
qed

lemma filter_by_total:
  assumes "\<forall>r \<in> set fr. r c \<noteq> None"
  shows "filter_by c sel fr = Inr (filter (\<lambda>r. member_of sel (r c)) fr)"
proof -
  from column_total[OF assms] obtain vs where "column c fr = Inr vs" by blast
  then have "\<exists>out. filter_by c sel fr = Inr out"
    by (simp add: filter_by_def)
  then obtain out where out: "filter_by c sel fr = Inr out" by blast
  from filter_by_Inr[OF out] out show ?thesis by simp
qed

lemma apply_filters_Inr:
  assumes "apply_filters sel fr = Inr out"
  shows "out = filter (passes sel) fr"
proof -
  from assms obtain f1 f2 f3 where
    1: "filter_by ''courier_uuid'' (couriers sel) fr = Inr f1" and
    2: "filter_by ''corp_client_id'' (clients sel) f1 = Inr f2" and
    3: "filter_by ''tariff'' (tariffs sel) f2 = Inr f3" and
    4: "filter_by ''pick_status'' (filtered_statuses sel) f3 = Inr out"
    unfolding apply_filters_def ebind_eq_Inr by blast
  show ?thesis
    unfolding filter_by_Inr[OF 4] filter_by_Inr[OF 3] filter_by_Inr[OF 2] filter_by_Inr[OF 1]
    by (auto simp: passes_def intro: filter_cong)
qed

lemma apply_filters_total:
  assumes "\<forall>r \<in> set fr. r ''courier_uuid'' \<noteq> None \<and> r ''corp_client_id'' \<noteq> None \<and>
             r ''tariff'' \<noteq> None \<and> r ''pick_status'' \<noteq> None"
  shows "apply_filters sel fr = Inr (filter (passes sel) fr)"
proof -
  have 1: "filter_by ''courier_uuid'' (couriers sel) fr =
        Inr (filter (\<lambda>r. member_of (couriers sel) (r ''courier_uuid'')) fr)" (is "_ = Inr ?f1")
    by (rule filter_by_total) (use assms in blast)
  have 2: "filter_by ''corp_client_id'' (clients sel) ?f1 =
        Inr (filter (\<lambda>r. member_of (clients sel) (r ''corp_client_id'')) ?f1)" (is "_ = Inr ?f2")
    by (rule filter_by_total) (use assms in auto)
  have 3: "filter_by ''tariff'' (tariffs sel) ?f2 =
        Inr (filter (\<lambda>r. member_of (tariffs sel) (r ''tariff'')) ?f2)" (is "_ = Inr ?f3")
    by (rule filter_by_total) (use assms in auto)
  have 4: "filter_by ''pick_status'' (filtered_statuses sel) ?f3 =
        Inr (filter (\<lambda>r. member_of (filtered_statuses sel) (r ''pick_status'')) ?f3)" (is "_ = Inr ?f4")
    by (rule filter_by_total) (use assms in auto)
  have "apply_filters sel fr = Inr ?f4"
    by (simp only: apply_filters_def 1 2 3 4 ebind_Inr)
  from apply_filters_Inr[OF this] this show ?thesis by simp
qed

lemma typed_merged_row:
  assumes "join_left (map scan_row scans) (map proxy_row orders)
             ''scanned_barcode_value'' ''barcode'' proxy_columns = Inr merged"
    and "m \<in> set merged"
  shows "\<exists>s \<in> set scans. (\<exists>t \<in> set (matching orders s). m = scan_row s ++ proxy_row t) \<or>
           (matching orders s = [] \<and> m = scan_row s ++ nan_row proxy_columns)"
proof -
  from assms have "m \<in> set (concat (map (\<lambda>s. if matching orders s = []
       then [scan_row s ++ nan_row proxy_columns]
       else map (\<lambda>t. scan_row s ++ proxy_row t) (matching orders s)) scans))"
    unfolding join_left_typed by simp
  then obtain s where s: "s \<in> set scans"
    and m: "m \<in> set (if matching orders s = [] then [scan_row s ++ nan_row proxy_columns]
       else map (\<lambda>t. scan_row s ++ proxy_row t) (matching orders s))"
    by auto
  show ?thesis
  proof (cases "matching orders s = []")
    case True
    with m have "m = scan_row s ++ nan_row proxy_columns" by simp
    with True s show ?thesis by blast
  next
    case False
    with m obtain t where "t \<in> set (matching orders s)" "m = scan_row s ++ proxy_row t" by auto
    with s show ?thesis by blast
  qed
qed

lemma typed_merged_columns:
  assumes "join_left (map scan_row scans) (map proxy_row orders)
             ''scanned_barcode_value'' ''barcode'' proxy_columns = Inr merged"
    and "m \<in> set merged" and "c \<in> set scan_columns \<union> set proxy_columns"
  shows "m c \<noteq> None"
proof -
  from typed_merged_row[OF assms(1,2)] obtain s where
    m: "(\<exists>t. m = scan_row s ++ proxy_row t) \<or> m = scan_row s ++ nan_row proxy_columns"
    by blast
  from assms(3) show ?thesis
  proof
    assume c: "c \<in> set scan_columns"
    with m have "m c = scan_row s c" by (auto simp: joined_scan_cols)
    with c scan_row_dom[of s c] show ?thesis by auto
  next
    assume c: "c \<in> set proxy_columns"
    with m have "(\<exists>t. m c = proxy_row t c) \<or> m c = Some NaN" by (auto simp: joined_proxy_cols)
    with c proxy_row_dom[of _ c] show ?thesis by auto
  qed
qed

lemma merged_row_typed:
  assumes "merge_left conv (map scan_row scans) (map proxy_row orders)
             ''scanned_barcode_value'' ''barcode'' proxy_columns = Inr merged"
    and "m \<in> set merged"
  shows "\<exists>joined j. join_left (map scan_row scans) (map proxy_row orders)
             ''scanned_barcode_value'' ''barcode'' proxy_columns = Inr joined \<and> j \<in> set joined \<and>
           (\<forall>c. m c = (if c \<in> set proxy_columns
                        then map_option (astype conv (column_values c joined)) (j c) else j c))"
proof -
  from assms(1) obtain joined where
    j: "join_left (map scan_row scans) (map proxy_row orders)
             ''scanned_barcode_value'' ''barcode'' proxy_columns = Inr joined"
    and mg: "merged = infer_objects conv proxy_columns joined"
    unfolding merge_left_Inr by blast
  from assms(2) mg have "m \<in> set (infer_objects conv proxy_columns joined)" by simp
  from infer_objects_row[OF this] obtain j' where "j' \<in> set joined"
    "\<forall>c. m c = (if c \<in> set proxy_columns
                  then map_option (astype conv (column_values c joined)) (j' c) else j' c)"
    by blast
  with j show ?thesis by blast
qed

lemma merged_columns_typed:
  assumes "merge_left conv (map scan_row scans) (map proxy_row orders)
             ''scanned_barcode_value'' ''barcode'' proxy_columns = Inr merged"
    and "m \<in> set merged" and "c \<in> set scan_columns \<union> set proxy_columns"
  shows "m c \<noteq> None"
proof -
  from merged_row_typed[OF assms(1,2)] obtain joined j where
    j: "join_left (map scan_row scans) (map proxy_row orders)
             ''scanned_barcode_value'' ''barcode'' proxy_columns = Inr joined" "j \<in> set joined"
    and m: "\<forall>c. m c = (if c \<in> set proxy_columns
                        then map_option (astype conv (column_values c joined)) (j c) else j c)"
    by blast
  from typed_merged_columns[OF j assms(3)] have "j c \<noteq> None" .
  with m show ?thesis by (cases "c \<in> set proxy_columns") auto
qed

lemma reconcile_row_keeps:
  assumes "reconcile_row conv m = Inr r" and "m c \<noteq> None"
  shows "r c \<noteq> None"
proof -
  from reconcile_row_result[OF assms(1)] obtain code x y t v bc c' where
      "r = m(''scannable_qr'' \<mapsto> PStr (''http://qrcoder.ru/code/?'' @ py_str code @ ''&4&0''),
                 ''lat'' \<mapsto> x, ''lon'' \<mapsto> y,
                 ''tariff'' \<mapsto> PStr (tariff_label t),
                 ''lo_code'' \<mapsto> lo_code_display v,
                 ''pick_status'' \<mapsto> PStr (pick_status_of bc c'))"
    by blast
  with assms(2) show ?thesis by simp
qed

lemma reconcile_row_adds:
  assumes "reconcile_row conv m = Inr r"
  shows "r ''pick_status'' \<noteq> None" "r ''scannable_qr'' \<noteq> None"
proof -
  from reconcile_row_result[OF assms(1)] obtain code x y t v bc c' where
      "r = m(''scannable_qr'' \<mapsto> PStr (''http://qrcoder.ru/code/?'' @ py_str code @ ''&4&0''),
                 ''lat'' \<mapsto> x, ''lon'' \<mapsto> y,
                 ''tariff'' \<mapsto> PStr (tariff_label t),
                 ''lo_code'' \<mapsto> lo_code_display v,
                 ''pick_status'' \<mapsto> PStr (pick_status_of bc c'))"
    by blast
  then show "r ''pick_status'' \<noteq> None" "r ''scannable_qr'' \<noteq> None" by simp_all
qed

lemma reconciled_columns:
  assumes "reconcile conv (map scan_row scans) (map proxy_row orders) = Inr out"
    and "r \<in> set out"
    and "c \<in> set scan_columns \<union> set proxy_columns \<union> {''scannable_qr'', ''pick_status''}"
  shows "r c \<noteq> None"
proof -
  from reconcile_record[OF assms(1,2)] obtain merged m where
    mg: "merge_left conv (map scan_row scans) (map proxy_row orders)
             ''scanned_barcode_value'' ''barcode'' proxy_columns = Inr merged"
    and m: "m \<in> set merged" and r: "reconcile_row conv m = Inr r"
    by blast
  from assms(3) consider "c \<in> set scan_columns \<union> set proxy_columns" | "c = ''scannable_qr''"
    | "c = ''pick_status''" by blast
  then show ?thesis
  proof cases
    case 1
    from merged_columns_typed[OF mg m 1] reconcile_row_keeps[OF r] show ?thesis by blast
  next
    case 2
    with reconcile_row_adds[OF r] show ?thesis by simp
  next
    case 3
    with reconcile_row_adds[OF r] show ?thesis by simp
  qed
qed

lemma reconciled_filter_columns:
  assumes "reconcile conv (map scan_row scans) (map proxy_row orders) = Inr out"
  shows "\<forall>r \<in> set out. r ''courier_uuid'' \<noteq> None \<and> r ''corp_client_id'' \<noteq> None \<and>
             r ''tariff'' \<noteq> None \<and> r ''pick_status'' \<noteq> None"
proof
  fix r assume r: "r \<in> set out"
  have "r ''courier_uuid'' \<noteq> None"
    by (rule reconciled_columns[OF assms r]) (simp add: scan_columns_def)
  moreover have "r ''corp_client_id'' \<noteq> None"
    by (rule reconciled_columns[OF assms r]) (simp add: scan_columns_def)
  moreover have "r ''tariff'' \<noteq> None"
    by (rule reconciled_columns[OF assms r]) (simp add: proxy_columns_def)
  moreover have "r ''pick_status'' \<noteq> None"
    by (rule reconciled_columns[OF assms r]) simp
  ultimately show "r ''courier_uuid'' \<noteq> None \<and> r ''corp_client_id'' \<noteq> None \<and>
             r ''tariff'' \<noteq> None \<and> r ''pick_status'' \<noteq> None"
    by blast
qed

lemma take_prefix_iff: "take (length p) s = p \<longleftrightarrow> (\<exists>b. s = p @ b)"
proof
  assume "take (length p) s = p"
  then have "s = p @ drop (length p) s" by (metis append_take_drop_id)
  then show "\<exists>b. s = p @ b" ..
next
  assume "\<exists>b. s = p @ b"
  then show "take (length p) s = p" by auto
qed

lemma str_contains_iff: "str_contains p s \<longleftrightarrow> (\<exists>a b. s = a @ p @ b)"
proof (induction s)
  case Nil
  show ?case by auto
next
  case (Cons c s)
  have "(\<exists>a b. c # s = a @ p @ b) \<longleftrightarrow> (\<exists>b. c # s = p @ b) \<or> (\<exists>a b. s = a @ p @ b)"
  proof
    assume "\<exists>a b. c # s = a @ p @ b"
    then obtain a b where ab: "c # s = a @ p @ b" by blast
    show "(\<exists>b. c # s = p @ b) \<or> (\<exists>a b. s = a @ p @ b)"
    proof (cases a)
      case Nil
      with ab show ?thesis by auto
    next
      case (Cons x a')
      with ab have "s = a' @ p @ b" by simp
      then show ?thesis by blast
    qed
  next
    assume "(\<exists>b. c # s = p @ b) \<or> (\<exists>a b. s = a @ p @ b)"
    then show "\<exists>a b. c # s = a @ p @ b"
    proof
      assume "\<exists>b. c # s = p @ b"
      then obtain b where "c # s = [] @ p @ b" by auto
      then show ?thesis by blast
    next
      assume "\<exists>a b. s = a @ p @ b"
      then obtain a b where "c # s = (c # a) @ p @ b" by auto
      then show ?thesis by blast
    qed
  qed
  then show ?case
    by (simp only: str_contains.simps take_prefix_iff Cons.IH)
qed

lemma retry_mask_proxy:
  "retry_mask (proxy_row t) =
     (case routing_order_number t of PStr s \<Rightarrow> Inr (str_contains ''_RETRY_'' s) | _ \<Rightarrow> Inl MaskError)"
  by (simp add: retry_mask_def proxy_row_fields split: pyval.splits)

lemma drop_retry_typed:
  "drop_retry (map proxy_row orders) =
     (if \<forall>t \<in> set orders. \<exists>s. routing_order_number t = PStr s
      then Inr (map proxy_row (filter (\<lambda>t. \<not> is_retry t) orders)) else Inl MaskError)"
proof (induction orders)
  case Nil
  show ?case by simp
next
  case (Cons t orders)
  show ?case
  proof (cases "routing_order_number t")
    case (PStr s)
    then show ?thesis
      by (simp add: Cons.IH retry_mask_proxy is_retry_def)
  qed (simp_all add: retry_mask_proxy)
qed

lemma column_count:
  assumes "column c fr = Inr vs"
  shows "length (filter (\<lambda>v. v = x) vs) = length (filter (\<lambda>r. r c = Some x) fr)"
proof -
  from assms have "list_all2 (\<lambda>r v. r c = Some v) fr vs" by (simp add: column_Inr)
  then show ?thesis by (induction rule: list_all2_induct) auto
qed

lemma apply_rows_map:
  assumes "\<forall>r \<in> set fr. f r = Inr (g r)"
  shows "apply_rows f fr = Inr (map g fr)"
  using assms by (induction fr) simp_all

lemma select_visible:
  assumes "reconcile conv (map scan_row scans) (map proxy_row orders) = Inr out" and "r \<in> set out"
  shows "select_columns visible_columns r = Inr (r |` set visible_columns)"
proof -
  have "r c \<noteq> None" if "c \<in> set visible_columns" for c
    by (rule reconciled_columns[OF assms])
      (use that in \<open>auto simp: visible_columns_def scan_columns_def proxy_columns_def\<close>)
  then show ?thesis
    by (simp add: select_columns_def list_all_iff)
qed

lemma first_mile_monitor_eq:
  assumes d: "drop_retry (map proxy_row (data_frame conv orders)) = Inr (map proxy_row kept)"
    and r: "reconcile conv (map scan_row scans) (map proxy_row kept) = Inr merged"
    and ne: "merged \<noteq> []"
  shows "first_mile_monitor conv orders scans sel =
     Inr \<lparr>scan_events = length merged,
          scan_errors = length (filter (\<lambda>r. r ''pick_status'' = Some (PStr ''Missing'')) merged),
          visible_frame = map (\<lambda>r. r |` set visible_columns) (filter (passes sel) merged)\<rparr>"
proof -
  note cols = reconciled_filter_columns[OF r]
  from cols have "\<forall>r \<in> set merged. r ''courier_uuid'' \<noteq> None" by blast
  from column_total[OF this] obtain v1 where c1: "column ''courier_uuid'' merged = Inr v1" by blast
  from cols have "\<forall>r \<in> set merged. r ''corp_client_id'' \<noteq> None" by blast
  from column_total[OF this] obtain v2 where c2: "column ''corp_client_id'' merged = Inr v2" by blast
  from cols have "\<forall>r \<in> set merged. r ''tariff'' \<noteq> None" by blast
  from column_total[OF this] obtain v3 where c3: "column ''tariff'' merged = Inr v3" by blast
  from cols have "\<forall>r \<in> set merged. r ''pick_status'' \<noteq> None" by blast
  from column_total[OF this] obtain v4 where c4: "column ''pick_status'' merged = Inr v4" by blast
  from ne c4 have c4': "added_column ''pick_status'' merged = Inr v4"
    by (simp add: added_column_def)
  have f: "apply_filters sel merged = Inr (filter (passes sel) merged)"
    by (rule apply_filters_total[OF cols])
  have "\<forall>x \<in> set (filter (passes sel) merged).
          select_columns visible_columns x = Inr (x |` set visible_columns)"
    using select_visible[OF r] by simp
  from apply_rows_map[OF this]
  have v: "apply_rows (select_columns visible_columns) (filter (passes sel) merged) =
        Inr (map (\<lambda>r. r |` set visible_columns) (filter (passes sel) merged))" .
  show ?thesis
    by (simp only: first_mile_monitor_def d r c1 c2 c3 c4 c4' f v ebind_Inr column_count[OF c4])
qed

lemma first_mile_monitor_Inr:
  assumes "first_mile_monitor conv orders scans sel = Inr rep"
  shows "\<exists>merged. (\<forall>t \<in> set (data_frame conv orders). \<exists>s. routing_order_number t = PStr s) \<and>
           drop_retry (map proxy_row (data_frame conv orders)) = Inr (map proxy_row (filter (\<lambda>t. \<not> is_retry t) (data_frame conv orders))) \<and>
           reconcile conv (map scan_row scans) (map proxy_row (filter (\<lambda>t. \<not> is_retry t) (data_frame conv orders)))
             = Inr merged \<and> merged \<noteq> [] \<and>
           rep = \<lparr>scan_events = length merged,
                  scan_errors = length (filter (\<lambda>r. r ''pick_status'' = Some (PStr ''Missing'')) merged),
                  visible_frame = map (\<lambda>r. r |` set visible_columns) (filter (passes sel) merged)\<rparr>"
proof -
  let ?kept = "filter (\<lambda>t. \<not> is_retry t) (data_frame conv orders)"
  from assms obtain pf where pf: "drop_retry (map proxy_row (data_frame conv orders)) = Inr pf"
    and rest: "ebind (reconcile conv (map scan_row scans) pf) (\<lambda>merged_frame.
     ebind (column ''courier_uuid'' merged_frame) (\<lambda>courier_options.
     ebind (column ''corp_client_id'' merged_frame) (\<lambda>client_options.
     ebind (column ''tariff'' merged_frame) (\<lambda>tariff_options.
     ebind (added_column ''pick_status'' merged_frame) (\<lambda>status_options.
     ebind (column ''pick_status'' merged_frame) (\<lambda>statuses.
     ebind (apply_filters sel merged_frame) (\<lambda>filtered_frame.
     ebind (apply_rows (select_columns visible_columns) filtered_frame) (\<lambda>visible.
       Inr \<lparr>scan_events = length merged_frame,
            scan_errors = length (filter (\<lambda>v. v = PStr ''Missing'') statuses),
            visible_frame = visible\<rparr>)))))))) = Inr rep"
    unfolding first_mile_monitor_def by (cases "drop_retry (map proxy_row (data_frame conv orders))") simp_all
  from pf have ok: "\<forall>t \<in> set (data_frame conv orders). \<exists>s. routing_order_number t = PStr s"
    and pfeq: "pf = map proxy_row ?kept"
    unfolding drop_retry_typed by (simp_all split: if_splits)
  from rest obtain merged where m: "reconcile conv (map scan_row scans) pf = Inr merged"
    and rest2: "ebind (column ''courier_uuid'' merged) (\<lambda>courier_options.
     ebind (column ''corp_client_id'' merged) (\<lambda>client_options.
     ebind (column ''tariff'' merged) (\<lambda>tariff_options.
     ebind (added_column ''pick_status'' merged) (\<lambda>status_options.
     ebind (column ''pick_status'' merged) (\<lambda>statuses.
     ebind (apply_filters sel merged) (\<lambda>filtered_frame.
     ebind (apply_rows (select_columns visible_columns) filtered_frame) (\<lambda>visible.
       Inr \<lparr>scan_events = length merged,
            scan_errors = length (filter (\<lambda>v. v = PStr ''Missing'') statuses),
            visible_frame = visible\<rparr>))))))) = Inr rep"
    by (cases "reconcile conv (map scan_row scans) pf") simp_all
  have ne: "merged \<noteq> []"
  proof
    assume "merged = []"
    with rest2 show False by (simp add: added_column_def)
  qed
  from pf pfeq have d: "drop_retry (map proxy_row (data_frame conv orders)) = Inr (map proxy_row ?kept)" by simp
  from m pfeq have r: "reconcile conv (map scan_row scans) (map proxy_row ?kept) = Inr merged" by simp
  from first_mile_monitor_eq[OF d r ne, of sel] assms
  have "rep = \<lparr>scan_events = length merged,
                  scan_errors = length (filter (\<lambda>r. r ''pick_status'' = Some (PStr ''Missing'')) merged),
                  visible_frame = map (\<lambda>r. r |` set visible_columns) (filter (passes sel) merged)\<rparr>"
    by simp
  with ok d r ne show ?thesis by blast
qed

lemma sample_frame:
  "data_frame sample_conv [order_xyz, order_claimed] = [order_xyz, order_claimed]"
  "data_frame sample_conv [order_xyz, order_retry, order_claimed] = [order_xyz, order_retry, order_claimed]"
  "data_frame sample_conv [order_xyz] = [order_xyz]"
  by (simp_all add: data_frame_def astype_def float64_column_def sample_defs)

lemma sample_kept:
  "filter (\<lambda>t. \<not> is_retry t) [order_xyz, order_claimed] = [order_xyz, order_claimed]"
  "filter (\<lambda>t. \<not> is_retry t) [order_xyz, order_retry, order_claimed] = [order_xyz, order_claimed]"
  by (simp_all add: is_retry_def order_xyz_def order_claimed_def order_retry_def)

lemma sample_drop:
  "drop_retry (map proxy_row [order_xyz, order_claimed]) = Inr (map proxy_row [order_xyz, order_claimed])"
  "drop_retry (map proxy_row [order_xyz, order_retry, order_claimed])
     = Inr (map proxy_row [order_xyz, order_claimed])"
  unfolding drop_retry_typed sample_kept
  by (simp_all add: order_xyz_def order_claimed_def order_retry_def)

lemma sample_report:
  "\<exists>r1 r2 r3.
     reconcile sample_conv (map scan_row [scan_xyz, scan_abc]) (map proxy_row [order_xyz, order_claimed])
       = Inr [r1, r2, r3] \<and>
     first_mile_monitor sample_conv [order_xyz, order_claimed] [scan_xyz, scan_abc]
       \<lparr>couriers = [PStr ''courier-1''], clients = [], tariffs = [], filtered_statuses = []\<rparr>
       = Inr \<lparr>scan_events = 3, scan_errors = 1,
              visible_frame = [r1 |` set visible_columns, r2 |` set visible_columns]\<rparr> \<and>
     r1 ''pick_status'' = Some (PStr ''Picked'') \<and> r2 ''pick_status'' = Some (PStr ''Received'') \<and>
     r3 ''pick_status'' = Some (PStr ''Missing'')"
proof -
  let ?F = "\<lparr>couriers = [PStr ''courier-1''], clients = [], tariffs = [], filtered_statuses = []\<rparr>"
  from sample_run obtain r1 r2 r3 where
    run: "reconcile sample_conv (map scan_row [scan_xyz, scan_abc])
            (map proxy_row [order_xyz, order_claimed]) = Inr [r1, r2, r3]"
    and f: "r1 ''pick_status'' = Some (PStr ''Picked'')" "r1 ''courier_uuid'' = Some (PStr ''courier-1'')"
      "r2 ''pick_status'' = Some (PStr ''Received'')" "r2 ''courier_uuid'' = Some (PStr ''courier-1'')"
      "r3 ''pick_status'' = Some (PStr ''Missing'')" "r3 ''courier_uuid'' = Some (PStr ''courier-2'')"
    by blast
  have p: "filter (passes ?F) [r1, r2, r3] = [r1, r2]"
    by (simp add: passes_def member_of_def f)
  have e: "length (filter (\<lambda>r. r ''pick_status'' = Some (PStr ''Missing'')) [r1, r2, r3]) = 1"
    by (simp add: f)
  have ne: "[r1, r2, r3] \<noteq> []" by simp
  have d: "drop_retry (map proxy_row (data_frame sample_conv [order_xyz, order_claimed]))
      = Inr (map proxy_row [order_xyz, order_claimed])"
    unfolding sample_frame by (rule sample_drop(1))
  have "first_mile_monitor sample_conv [order_xyz, order_claimed] [scan_xyz, scan_abc] ?F
       = Inr \<lparr>scan_events = 3, scan_errors = 1,
              visible_frame = [r1 |` set visible_columns, r2 |` set visible_columns]\<rparr>"
    unfolding first_mile_monitor_eq[OF d run ne, of ?F] p e by simp
  with run f show ?thesis by blast
qed

lemma reconcile_row_other:
  assumes "reconcile_row conv m = Inr r"
    and "c \<notin> {''scannable_qr'', ''lat'', ''lon'', ''tariff'', ''lo_code'', ''pick_status''}"
  shows "r c = m c"
proof -
  from reconcile_row_result[OF assms(1)] obtain code x y t v bc c' where
      "r = m(''scannable_qr'' \<mapsto> PStr (''http://qrcoder.ru/code/?'' @ py_str code @ ''&4&0''),
                 ''lat'' \<mapsto> x, ''lon'' \<mapsto> y,
                 ''tariff'' \<mapsto> PStr (tariff_label t),
                 ''lo_code'' \<mapsto> lo_code_display v,
                 ''pick_status'' \<mapsto> PStr (pick_status_of bc c'))"
    by blast
  with assms(2) show ?thesis by simp
qed

lemma matching_subset: "set (matching orders s) \<subseteq> set orders"
  by (auto simp: matching_def)

lemma is_retry_iff:
  "is_retry t \<longleftrightarrow> (\<exists>s a b. routing_order_number t = PStr s \<and> s = a @ ''_RETRY_'' @ b)"
  by (cases "routing_order_number t") (simp_all add: is_retry_def str_contains_iff)

lemma coercible_iff: "coercible conv v \<longleftrightarrow> (\<exists>x. py_float conv v = Inr x)"
  by (cases "py_float conv v") (simp_all add: coercible_def)

lemma list_all2_pick_left:
  assumes "list_all2 P xs ys" and "x \<in> set xs"
  shows "\<exists>y \<in> set ys. P x y"
  using assms by (induction rule: list_all2_induct) auto

lemma list_all2_exists:
  assumes "\<forall>x \<in> set xs. \<exists>y. P x y"
  shows "\<exists>ys. list_all2 P xs ys"
  using assms
proof (induction xs)
  case Nil
  show ?case by simp
next
  case (Cons x xs)
  then obtain y ys where "P x y" "list_all2 P xs ys" by auto
  then have "list_all2 P (x # xs) (y # ys)" by simp
  then show ?case ..
qed

lemma concat_part:
  assumes "x \<in> set xs"
  shows "set (f x) \<subseteq> set (concat (map f xs))"
  using assms by auto

lemma typed_scan_has_row:
  assumes "join_left (map scan_row scans) (map proxy_row orders)
             ''scanned_barcode_value'' ''barcode'' proxy_columns = Inr merged"
    and "s \<in> set scans"
  shows "\<exists>m \<in> set merged. m ''lat'' = Some (lat s) \<and> m ''lon'' = Some (lon s)"
proof -
  let ?f = "\<lambda>s. if matching orders s = [] then [scan_row s ++ nan_row proxy_columns]
                  else map (\<lambda>t. scan_row s ++ proxy_row t) (matching orders s)"
  from assms(1) have "merged = concat (map ?f scans)"
    unfolding join_left_typed by simp
  with concat_part[OF assms(2), of ?f] have sub: "set (?f s) \<subseteq> set merged"
    by (simp only:)
  show ?thesis
  proof (cases "matching orders s")
    case Nil
    with sub have "scan_row s ++ nan_row proxy_columns \<in> set merged" by simp
    then show ?thesis
      by (rule bexI[rotated]) (simp add: unmatched_scan_fields)
  next
    case (Cons t ts)
    with sub have "scan_row s ++ proxy_row t \<in> set merged" by simp
    then show ?thesis
      by (rule bexI[rotated]) (simp add: joined_scan_fields)
  qed
qed

lemma typed_row_passes:
  assumes "join_left (map scan_row scans) (map proxy_row orders)
             ''scanned_barcode_value'' ''barcode'' proxy_columns = Inr merged"
    and "m \<in> set merged"
    and "\<forall>s \<in> set scans. coercible conv (lat s) \<and> coercible conv (lon s)"
  shows "\<exists>r. reconcile_row conv m = Inr r"
proof -
  from typed_merged_row[OF assms(1,2)] obtain s where s: "s \<in> set scans"
    and m: "(\<exists>t. m = scan_row s ++ proxy_row t) \<or> m = scan_row s ++ nan_row proxy_columns"
    by blast
  from assms(3) s obtain x y where x: "py_float conv (lat s) = Inr x"
    and y: "py_float conv (lon s) = Inr y"
    unfolding coercible_iff by blast
  from m show ?thesis
  proof
    assume "\<exists>t. m = scan_row s ++ proxy_row t"
    then obtain t where mt: "m = scan_row s ++ proxy_row t" ..
    show ?thesis
      unfolding mt
      by (rule reconcile_row_total[OF joined_scan_fields(4) joined_scan_fields(6)
            joined_scan_fields(7) x y joined_order_fields(6) joined_order_fields(3)
            joined_order_fields(1) joined_order_fields(5)])
  next
    assume mn: "m = scan_row s ++ nan_row proxy_columns"
    show ?thesis
      unfolding mn
      by (rule reconcile_row_total[OF unmatched_scan_fields(4) unmatched_scan_fields(6)
            unmatched_scan_fields(7) x y unmatched_order_fields(6) unmatched_order_fields(3)
            unmatched_order_fields(1) unmatched_order_fields(5)])
  qed
qed

lemma merge_left_typed:
  "merge_left conv (map scan_row scans) (map proxy_row orders)
       ''scanned_barcode_value'' ''barcode'' proxy_columns =
     Inr (infer_objects conv proxy_columns
       (concat (map (\<lambda>s. if matching orders s = [] then [scan_row s ++ nan_row proxy_columns]
                          else map (\<lambda>t. scan_row s ++ proxy_row t) (matching orders s)) scans)))"
  by (simp add: merge_left_def join_left_typed)

lemma not_proxy_column:
  "''scanned_barcode_value'' \<notin> set proxy_columns" "''lat'' \<notin> set proxy_columns"
  "''lon'' \<notin> set proxy_columns" "''courier_uuid'' \<notin> set proxy_columns"
  "''corp_client_id'' \<notin> set proxy_columns" "''store_name'' \<notin> set proxy_columns"
  "''scan_dttm'' \<notin> set proxy_columns"
  by (simp_all add: proxy_columns_def)

lemma merged_scan_has_row:
  assumes "merge_left conv (map scan_row scans) (map proxy_row orders)
             ''scanned_barcode_value'' ''barcode'' proxy_columns = Inr merged"
    and "s \<in> set scans"
  shows "\<exists>m \<in> set merged. m ''lat'' = Some (lat s) \<and> m ''lon'' = Some (lon s)"
proof -
  from assms(1) obtain joined where
    j: "join_left (map scan_row scans) (map proxy_row orders)
             ''scanned_barcode_value'' ''barcode'' proxy_columns = Inr joined"
    and mg: "merged = infer_objects conv proxy_columns joined"
    unfolding merge_left_Inr by blast
  from typed_scan_has_row[OF j assms(2)] obtain j' where j': "j' \<in> set joined"
    and f: "j' ''lat'' = Some (lat s)" "j' ''lon'' = Some (lon s)" by blast
  define m' where "m' = (\<lambda>c. if c \<in> set proxy_columns
                 then map_option (astype conv (column_values c joined)) (j' c) else j' c)"
  from j' have a: "m' \<in> set merged"
    unfolding m'_def mg infer_objects_def set_map by (rule imageI)
  have b: "m' ''lat'' = Some (lat s)" "m' ''lon'' = Some (lon s)"
    by (simp_all add: m'_def not_proxy_column f)
  from a b show ?thesis by blast
qed

lemma merged_row_passes:
  assumes "merge_left conv (map scan_row scans) (map proxy_row orders)
             ''scanned_barcode_value'' ''barcode'' proxy_columns = Inr merged"
    and "m \<in> set merged"
    and "\<forall>s \<in> set scans. coercible conv (lat s) \<and> coercible conv (lon s)"
  shows "\<exists>r. reconcile_row conv m = Inr r"
proof -
  from merged_row_typed[OF assms(1,2)] obtain joined j where
    j: "join_left (map scan_row scans) (map proxy_row orders)
             ''scanned_barcode_value'' ''barcode'' proxy_columns = Inr joined" "j \<in> set joined"
    and m: "\<forall>c. m c = (if c \<in> set proxy_columns
                        then map_option (astype conv (column_values c joined)) (j c) else j c)"
    by blast
  from typed_merged_row[OF j] obtain s where s: "s \<in> set scans"
    and js: "(\<exists>t. j = scan_row s ++ proxy_row t) \<or> j = scan_row s ++ nan_row proxy_columns"
    by blast
  from assms(3) s obtain x y where x: "py_float conv (lat s) = Inr x"
    and y: "py_float conv (lon s) = Inr y"
    unfolding coercible_iff by blast
  from js have sc: "j ''scanned_barcode_value'' = Some (scanned_barcode_value s)"
    "j ''lat'' = Some (lat s)" "j ''lon'' = Some (lon s)"
    by (auto simp: joined_scan_fields unmatched_scan_fields)
  from js have pc: "j ''tariff'' \<noteq> None" "j ''lo_code'' \<noteq> None" "j ''barcode'' \<noteq> None"
    "j ''claim_id'' \<noteq> None"
    by (auto simp: joined_order_fields unmatched_order_fields)
  from m sc have 1: "m ''scanned_barcode_value'' = Some (scanned_barcode_value s)"
    "m ''lat'' = Some (lat s)" "m ''lon'' = Some (lon s)"
    by (simp_all add: not_proxy_column)
  from m pc obtain t v bc c where 2: "m ''tariff'' = Some t" "m ''lo_code'' = Some v"
    "m ''barcode'' = Some bc" "m ''claim_id'' = Some c"
    by (auto simp: proxy_columns_def)
  show ?thesis
    by (rule reconcile_row_total[OF 1 x y 2])
qed

lemma reconcile_typed_iff:
  "(\<exists>out. reconcile conv (map scan_row scans) (map proxy_row orders) = Inr out) \<longleftrightarrow>
     (\<forall>s \<in> set scans. coercible conv (lat s) \<and> coercible conv (lon s))"
proof
  assume "\<exists>out. reconcile conv (map scan_row scans) (map proxy_row orders) = Inr out"
  then obtain out merged where
    mg: "merge_left conv (map scan_row scans) (map proxy_row orders)
             ''scanned_barcode_value'' ''barcode'' proxy_columns = Inr merged"
    and all: "list_all2 (\<lambda>m r. reconcile_row conv m = Inr r) merged out"
    unfolding reconcile_rows by blast
  show "\<forall>s \<in> set scans. coercible conv (lat s) \<and> coercible conv (lon s)"
  proof
    fix s assume "s \<in> set scans"
    from merged_scan_has_row[OF mg this] obtain m where m: "m \<in> set merged"
      and f: "m ''lat'' = Some (lat s)" "m ''lon'' = Some (lon s)" by blast
    from list_all2_pick_left[OF all m] obtain r where "reconcile_row conv m = Inr r" by blast
    from reconcile_row_result[OF this] f
    show "coercible conv (lat s) \<and> coercible conv (lon s)"
      unfolding coercible_iff by auto
  qed
next
  assume ok: "\<forall>s \<in> set scans. coercible conv (lat s) \<and> coercible conv (lon s)"
  obtain merged where mg: "merge_left conv (map scan_row scans) (map proxy_row orders)
             ''scanned_barcode_value'' ''barcode'' proxy_columns = Inr merged"
    using merge_left_typed by blast
  have "\<forall>m \<in> set merged. \<exists>r. reconcile_row conv m = Inr r"
    using merged_row_passes[OF mg _ ok] by blast
  from list_all2_exists[OF this] obtain out where
    "list_all2 (\<lambda>m r. reconcile_row conv m = Inr r) merged out" ..
  with mg show "\<exists>out. reconcile conv (map scan_row scans) (map proxy_row orders) = Inr out"
    unfolding reconcile_rows by blast
qed
lemma sample_merged_frame:
  "\<exists>m1 m2 m3.
     merge_left sample_conv (map scan_row [scan_xyz, scan_abc]) (map proxy_row [order_xyz, order_claimed])
       ''scanned_barcode_value'' ''barcode'' proxy_columns = Inr [m1, m2, m3]
     \<and> m1 ''tariff'' = Some (PFloat ''0.0'') \<and> m2 ''tariff'' = Some (PFloat ''1.0'')
     \<and> m3 ''tariff'' = Some NaN
     \<and> m1 ''lo_code'' = Some (PStr ''42'') \<and> m2 ''lo_code'' = Some PNone \<and> m3 ''lo_code'' = Some NaN
     \<and> m1 ''claim_id'' = Some PNone \<and> m2 ''claim_id'' = Some (PStr ''CL-1'')
     \<and> m3 ''claim_id'' = Some NaN
     \<and> m1 ''request_id'' = Some NaN \<and> m2 ''request_id'' = Some NaN \<and> m3 ''request_id'' = Some NaN"
proof -
  let ?j1 = "scan_row scan_xyz ++ proxy_row order_xyz"
  let ?j2 = "scan_row scan_xyz ++ proxy_row order_claimed"
  let ?j3 = "scan_row scan_abc ++ nan_row proxy_columns"
  have mg: "merge_left sample_conv (map scan_row [scan_xyz, scan_abc])
       (map proxy_row [order_xyz, order_claimed])
       ''scanned_barcode_value'' ''barcode'' proxy_columns =
      Inr (infer_objects sample_conv proxy_columns [?j1, ?j2, ?j3])"
    unfolding merge_left_typed by (simp add: sample_matching)
  have cols: "column_values ''tariff'' [?j1, ?j2, ?j3] = [PInt 0, PInt 1, NaN]"
    "column_values ''lo_code'' [?j1, ?j2, ?j3] = [PStr ''42'', PNone, NaN]"
    "column_values ''claim_id'' [?j1, ?j2, ?j3] = [PNone, PStr ''CL-1'', NaN]"
    "column_values ''request_id'' [?j1, ?j2, ?j3] = [PNone, PNone, NaN]"
    by (simp_all add: column_values_def List.map_filter_simps joined_fields order_xyz_def
        order_claimed_def)
  have f: "float64_column sample_conv [PInt 0, PInt 1, NaN]"
    "\<not> float64_column sample_conv [PStr ''42'', PNone, NaN]"
    "\<not> float64_column sample_conv [PNone, PStr ''CL-1'', NaN]"
    "float64_column sample_conv [PNone, PNone, NaN]"
    by (simp_all add: float64_column_def sample_conv_def)
  have c: "''tariff'' \<in> set proxy_columns" "''lo_code'' \<in> set proxy_columns"
    "''claim_id'' \<in> set proxy_columns" "''request_id'' \<in> set proxy_columns"
    by (simp_all add: proxy_columns_def)
  define m1 where "m1 = (\<lambda>c. if c \<in> set proxy_columns
      then map_option (astype sample_conv (column_values c [?j1, ?j2, ?j3])) (?j1 c) else ?j1 c)"
  define m2 where "m2 = (\<lambda>c. if c \<in> set proxy_columns
      then map_option (astype sample_conv (column_values c [?j1, ?j2, ?j3])) (?j2 c) else ?j2 c)"
  define m3 where "m3 = (\<lambda>c. if c \<in> set proxy_columns
      then map_option (astype sample_conv (column_values c [?j1, ?j2, ?j3])) (?j3 c) else ?j3 c)"
  have mg': "merge_left sample_conv (map scan_row [scan_xyz, scan_abc])
       (map proxy_row [order_xyz, order_claimed])
       ''scanned_barcode_value'' ''barcode'' proxy_columns = Inr [m1, m2, m3]"
    unfolding mg infer_objects_def m1_def m2_def m3_def by simp
  have cell: "(if c \<in> set proxy_columns
      then map_option (astype sample_conv (column_values c fr)) (j c) else j c) = Some w"
    if "c \<in> set proxy_columns" "column_values c fr = vs" "j c = Some v"
      "astype sample_conv vs v = w" for c fr vs j v w
    using that by simp
  have v: "astype sample_conv [PInt 0, PInt 1, NaN] (PInt 0) = PFloat ''0.0''"
    "astype sample_conv [PInt 0, PInt 1, NaN] (PInt 1) = PFloat ''1.0''"
    "astype sample_conv [PNone, PNone, NaN] PNone = NaN"
    "astype sample_conv [PStr ''42'', PNone, NaN] PNone = PNone"
    "astype sample_conv [PNone, PStr ''CL-1'', NaN] PNone = PNone"
    by (simp_all only: astype_def f if_True if_False) (simp_all add: sample_conv_def)
  have 1: "m1 ''tariff'' = Some (PFloat ''0.0'')"
    unfolding m1_def
    by (rule cell[OF c(1) cols(1), of _ "PInt 0"])
      (simp_all add: joined_fields order_xyz_def v)
  have 2: "m2 ''tariff'' = Some (PFloat ''1.0'')"
    unfolding m2_def
    by (rule cell[OF c(1) cols(1), of _ "PInt 1"])
      (simp_all add: joined_fields order_xyz_def order_claimed_def v)
  have 3: "m3 ''tariff'' = Some NaN"
    unfolding m3_def
    by (rule cell[OF c(1) cols(1), of _ NaN]) (simp_all add: joined_fields)
  have 4: "m1 ''lo_code'' = Some (PStr ''42'')"
    unfolding m1_def
    by (rule cell[OF c(2) cols(2), of _ "PStr ''42''"]) (simp_all add: joined_fields order_xyz_def)
  have 5: "m2 ''lo_code'' = Some PNone"
    unfolding m2_def
    by (rule cell[OF c(2) cols(2), of _ PNone])
      (simp_all add: joined_fields order_xyz_def order_claimed_def v)
  have 6: "m3 ''lo_code'' = Some NaN"
    unfolding m3_def
    by (rule cell[OF c(2) cols(2), of _ NaN]) (simp_all add: joined_fields)
  have 7: "m1 ''claim_id'' = Some PNone"
    unfolding m1_def
    by (rule cell[OF c(3) cols(3), of _ PNone])
      (simp_all add: joined_fields order_xyz_def v)
  have 8: "m2 ''claim_id'' = Some (PStr ''CL-1'')"
    unfolding m2_def
    by (rule cell[OF c(3) cols(3), of _ "PStr ''CL-1''"])
      (simp_all add: joined_fields order_xyz_def order_claimed_def)
  have 9: "m3 ''claim_id'' = Some NaN"
    unfolding m3_def
    by (rule cell[OF c(3) cols(3), of _ NaN]) (simp_all add: joined_fields)
  have 10: "m1 ''request_id'' = Some NaN"
    unfolding m1_def
    by (rule cell[OF c(4) cols(4), of _ PNone])
      (simp_all add: joined_fields order_xyz_def v)
  have 11: "m2 ''request_id'' = Some NaN"
    unfolding m2_def
    by (rule cell[OF c(4) cols(4), of _ PNone])
      (simp_all add: joined_fields order_xyz_def order_claimed_def v)
  have 12: "m3 ''request_id'' = Some NaN"
    unfolding m3_def
    by (rule cell[OF c(4) cols(4), of _ NaN]) (simp_all add: joined_fields)
  show ?thesis
    by (intro exI[of _ m1] exI[of _ m2] exI[of _ m3] conjI mg' 1 2 3 4 5 6 7 8 9 10 11 12)
qed

lemma reconciled_origin:
  assumes "reconcile conv (map scan_row scans) (map proxy_row kept) = Inr out" and "r \<in> set out"
    and "\<forall>t \<in> set kept. \<exists>s. routing_order_number t = PStr s"
  shows "(r ''external_id'' = Some NaN \<and> r ''barcode'' = Some NaN) \<or>
         (\<exists>t \<in> set kept. r ''external_id'' = Some (routing_order_number t) \<and>
            (\<exists>bs. r ''barcode'' = Some (astype conv bs (client_order_number t))) \<and>
            (\<exists>cs. r ''claim_id'' = Some (astype conv cs (claim_id t))))"
proof -
  from reconcile_record[OF assms(1,2)] obtain merged m where
    mg: "merge_left conv (map scan_row scans) (map proxy_row kept)
           ''scanned_barcode_value'' ''barcode'' proxy_columns = Inr merged"
    and m: "m \<in> set merged" and r: "reconcile_row conv m = Inr r"
    by blast
  have keep: "r ''external_id'' = m ''external_id''" "r ''barcode'' = m ''barcode''"
    "r ''claim_id'' = m ''claim_id''"
    by (rule reconcile_row_other[OF r], simp)+
  from merged_row_typed[OF mg m] obtain joined j where
    jl: "join_left (map scan_row scans) (map proxy_row kept)
           ''scanned_barcode_value'' ''barcode'' proxy_columns = Inr joined" and j: "j \<in> set joined"
    and mj: "\<forall>c. m c = (if c \<in> set proxy_columns
                then map_option (astype conv (column_values c joined)) (j c) else j c)"
    by blast
  have cell: "m ''external_id'' = map_option (astype conv (column_values ''external_id'' joined))
        (j ''external_id'')"
    "m ''barcode'' = map_option (astype conv (column_values ''barcode'' joined)) (j ''barcode'')"
    "m ''claim_id'' = map_option (astype conv (column_values ''claim_id'' joined)) (j ''claim_id'')"
    by (simp_all add: mj proxy_columns_def)
  from typed_merged_row[OF jl j] obtain s where
    "(\<exists>t \<in> set (matching kept s). j = scan_row s ++ proxy_row t) \<or>
       (matching kept s = [] \<and> j = scan_row s ++ nan_row proxy_columns)"
    by blast
  then show ?thesis
  proof
    assume "\<exists>t \<in> set (matching kept s). j = scan_row s ++ proxy_row t"
    then obtain t where t: "t \<in> set (matching kept s)" and jt: "j = scan_row s ++ proxy_row t"
      by blast
    from t matching_subset[of kept s] have tk: "t \<in> set kept" by auto
    with assms(3) obtain e where e: "routing_order_number t = PStr e" by blast
    have f: "j ''external_id'' = Some (routing_order_number t)"
      "j ''barcode'' = Some (client_order_number t)" "j ''claim_id'' = Some (claim_id t)"
      unfolding jt by (rule joined_order_fields)+
    have "r ''external_id'' = Some (routing_order_number t)"
      unfolding keep cell f by (simp add: e)
    moreover have "r ''barcode'' =
        Some (astype conv (column_values ''barcode'' joined) (client_order_number t))"
      unfolding keep cell f by simp
    moreover have "r ''claim_id'' =
        Some (astype conv (column_values ''claim_id'' joined) (claim_id t))"
      unfolding keep cell f by simp
    ultimately show ?thesis using tk by blast
  next
    assume "matching kept s = [] \<and> j = scan_row s ++ nan_row proxy_columns"
    then have jn: "j = scan_row s ++ nan_row proxy_columns" ..
    have f: "j ''external_id'' = Some NaN" "j ''barcode'' = Some NaN"
      unfolding jn by (rule unmatched_order_fields)+
    have "r ''external_id'' = Some NaN" "r ''barcode'' = Some NaN"
      unfolding keep cell f by simp_all
    then show ?thesis by blast
  qed
qed


lemma lo_code_display_null: "isna v \<Longrightarrow> lo_code_display v = v"
  by (simp add: lo_code_display_def)


lemmas sample_eval =
  reconcile_def merge_left_def infer_objects_def column_values_def List.map_filter_simps astype_def
  float64_column_def sample_defs order_numbered_def scan_row_def proxy_row_def scan_columns_def
  proxy_columns_def join_row_def key_match_def nan_row_def set_barcode_image_def
  normalize_coordinates_def py_float_def normalize_tariffs_def refactor_lo_code_def set_status_def
  str_int_def digits10.simps


lemma join_left_pairs:
  "join_left (map scan_row scans) (map proxy_row orders) ''scanned_barcode_value'' ''barcode''
       proxy_columns = Inr (map pair_row (join_pairs orders scans))"
  unfolding join_left_typed join_pairs_def
  by (simp add: map_concat comp_def if_distrib[of "map pair_row"] cong: if_cong)

lemma length_join_pairs:
  "length (join_pairs orders scans) = sum_list (map (\<lambda>s. max 1 (length (matching orders s))) scans)"
  "length scans \<le> length (join_pairs orders scans)"
proof -
  let ?f = "\<lambda>s. if matching orders s = [] then [(s, None :: proxy_order option)]
                  else map (\<lambda>t. (s, Some t)) (matching orders s)"
  have len_f: "length (?f s) = max 1 (length (matching orders s))" for s
    by (cases "matching orders s") simp_all
  show "length (join_pairs orders scans) =
      sum_list (map (\<lambda>s. max 1 (length (matching orders s))) scans)"
    unfolding join_pairs_def
    by (simp add: length_concat comp_def len_f del: max.absorb1 max.absorb2 max.absorb3 max.absorb4)
  show "length scans \<le> length (join_pairs orders scans)"
    unfolding join_pairs_def by (rule length_concat_ge) (simp add: len_f)
qed

lemma join_pairs_member:
  assumes "p \<in> set (join_pairs orders scans)"
  shows "fst p \<in> set scans \<and>
         (case snd p of None \<Rightarrow> matching orders (fst p) = []
          | Some t \<Rightarrow> t \<in> set (matching orders (fst p)))"
  using assms unfolding join_pairs_def by (auto split: if_splits)

lemma merged_pairs:
  assumes "merge_left conv (map scan_row scans) (map proxy_row orders)
             ''scanned_barcode_value'' ''barcode'' proxy_columns = Inr merged"
  shows "\<exists>col. list_all2 (\<lambda>p m. p \<in> set (join_pairs orders scans) \<and>
           (\<forall>c. m c = (if c \<in> set proxy_columns then map_option (astype conv (col c)) (pair_row p c)
                        else pair_row p c)))
         (join_pairs orders scans) merged"
proof -
  let ?joined = "map pair_row (join_pairs orders scans)"
  from assms have mg: "merged = infer_objects conv proxy_columns ?joined"
    unfolding merge_left_Inr join_left_pairs by simp
  have "list_all2 (\<lambda>p m. p \<in> set (join_pairs orders scans) \<and>
           (\<forall>c. m c = (if c \<in> set proxy_columns
               then map_option (astype conv (column_values c ?joined)) (pair_row p c)
               else pair_row p c)))
         (join_pairs orders scans) merged"
    unfolding mg infer_objects_def list_all2_map2 by (simp add: list_all2_same)
  then show ?thesis by (rule exI[of _ "\<lambda>c. column_values c ?joined"])
qed

lemma pair_row_cols:
  "c \<in> set scan_columns \<Longrightarrow> pair_row (s, ot) c = scan_row s c"
  "c \<in> set proxy_columns \<Longrightarrow> pair_row (s, None) c = Some NaN"
  "c \<in> set proxy_columns \<Longrightarrow> pair_row (s, Some t) c = proxy_row t c"
  by (cases ot) (simp_all add: joined_scan_cols joined_proxy_cols)

lemma pair_record:
  assumes m: "\<forall>c. m c = (if c \<in> set proxy_columns
                then map_option (astype conv (col c)) (pair_row (s, ot) c) else pair_row (s, ot) c)"
    and r: "reconcile_row conv m = Inr r"
  shows "\<forall>c \<in> set scan_columns. c \<noteq> ''lat'' \<longrightarrow> c \<noteq> ''lon'' \<longrightarrow> r c = scan_row s c"
    and "\<exists>x y. py_float conv (lat s) = Inr x \<and> py_float conv (lon s) = Inr y \<and>
           r ''lat'' = Some x \<and> r ''lon'' = Some y"
    and "ot = None \<Longrightarrow>
           (\<forall>c \<in> set proxy_columns. c \<noteq> ''tariff'' \<longrightarrow> r c = Some NaN) \<and>
           r ''tariff'' = Some (PStr ''Unknown'')"
    and "ot = Some t \<Longrightarrow>
           \<forall>c \<in> set proxy_columns. c \<noteq> ''tariff'' \<longrightarrow> c \<noteq> ''lo_code'' \<longrightarrow>
             (\<exists>vs v. proxy_row t c = Some v \<and> r c = Some (astype conv vs v))"
proof -
  from reconcile_row_result[OF r] obtain code a b x y tv v bc cl where
    ml: "m ''lat'' = Some a" "m ''lon'' = Some b"
    and xy: "py_float conv a = Inr x" "py_float conv b = Inr y"
    and mt: "m ''tariff'' = Some tv" and mv: "m ''lo_code'' = Some v"
    and req: "r = m(''scannable_qr'' \<mapsto> PStr (''http://qrcoder.ru/code/?'' @ py_str code @ ''&4&0''),
                 ''lat'' \<mapsto> x, ''lon'' \<mapsto> y,
                 ''tariff'' \<mapsto> PStr (tariff_label tv),
                 ''lo_code'' \<mapsto> lo_code_display v,
                 ''pick_status'' \<mapsto> PStr (pick_status_of bc cl))"
    by blast
  have scan: "m c = scan_row s c" if "c \<in> set scan_columns" for c
    using that columns_disjoint[OF that] by (simp add: m pair_row_cols)
  show "\<forall>c \<in> set scan_columns. c \<noteq> ''lat'' \<longrightarrow> c \<noteq> ''lon'' \<longrightarrow> r c = scan_row s c"
  proof (intro ballI impI)
    fix c assume c: "c \<in> set scan_columns" "c \<noteq> ''lat''" "c \<noteq> ''lon''"
    then have "c \<notin> {''scannable_qr'', ''lat'', ''lon'', ''tariff'', ''lo_code'', ''pick_status''}"
      by (auto simp: scan_columns_def)
    then have "r c = m c" unfolding req by simp
    with scan[OF c(1)] show "r c = scan_row s c" by simp
  qed
  have "m ''lat'' = Some (lat s)" "m ''lon'' = Some (lon s)"
    by (simp_all add: scan scan_columns_def scan_row_fields)
  with ml xy have "py_float conv (lat s) = Inr x" "py_float conv (lon s) = Inr y" by simp_all
  moreover have "r ''lat'' = Some x" "r ''lon'' = Some y" unfolding req by simp_all
  ultimately show "\<exists>x y. py_float conv (lat s) = Inr x \<and> py_float conv (lon s) = Inr y \<and>
           r ''lat'' = Some x \<and> r ''lon'' = Some y"
    by blast
  show "(\<forall>c \<in> set proxy_columns. c \<noteq> ''tariff'' \<longrightarrow> r c = Some NaN) \<and>
           r ''tariff'' = Some (PStr ''Unknown'')" if "ot = None"
  proof -
    have nan: "m c = Some NaN" if "c \<in> set proxy_columns" for c
      using that \<open>ot = None\<close> by (simp add: m joined_proxy_cols)
    from nan[of "''tariff''"] mt have "tv = NaN" by (simp add: proxy_columns_def)
    then have t: "r ''tariff'' = Some (PStr ''Unknown'')"
      unfolding req by (simp add: tariff_label_def)
    from nan[of "''lo_code''"] mv have "v = NaN" by (simp add: proxy_columns_def)
    then have l: "r ''lo_code'' = Some NaN"
      unfolding req by (simp add: lo_code_display_def)
    have "r c = Some NaN" if c: "c \<in> set proxy_columns" "c \<noteq> ''tariff''" for c
    proof (cases "c = ''lo_code''")
      case True
      with l show ?thesis by simp
    next
      case False
      with c have "c \<notin> {''scannable_qr'', ''lat'', ''lon'', ''tariff'', ''lo_code'', ''pick_status''}"
        by (auto simp: proxy_columns_def)
      then have "r c = m c" unfolding req by simp
      with nan[OF c(1)] show ?thesis by simp
    qed
    with t show ?thesis by blast
  qed
  show "\<forall>c \<in> set proxy_columns. c \<noteq> ''tariff'' \<longrightarrow> c \<noteq> ''lo_code'' \<longrightarrow>
             (\<exists>vs v. proxy_row t c = Some v \<and> r c = Some (astype conv vs v))" if "ot = Some t"
  proof (intro ballI impI)
    fix c assume c: "c \<in> set proxy_columns" "c \<noteq> ''tariff''" "c \<noteq> ''lo_code''"
    then have "c \<notin> {''scannable_qr'', ''lat'', ''lon'', ''tariff'', ''lo_code'', ''pick_status''}"
      by (auto simp: proxy_columns_def)
    then have rm: "r c = m c" unfolding req by simp
    from c(1) proxy_row_dom[of t c] obtain w where w: "proxy_row t c = Some w" by auto
    with c(1) \<open>ot = Some t\<close> have "m c = Some (astype conv (col c) w)"
      by (simp add: m joined_proxy_cols)
    with rm w show "\<exists>vs v. proxy_row t c = Some v \<and> r c = Some (astype conv vs v)" by auto
  qed
qed

section \<open>The left join\<close>

text \<open>
  Claim C3, as the specification states it, fails for the records the reconciliation
  produces (lines 148 to 153). The scan fields \<^verbatim>\<open>lat\<close> and \<^verbatim>\<open>lon\<close> of a record are not
  those of the scan: the scan has the text \<^verbatim>\<open>-33.45\<close>, the record the double. The
  record of a scan that matches no order has not only null order fields: its
  \<^verbatim>\<open>tariff\<close> is the label \<^verbatim>\<open>Unknown\<close>. And three scans of which one has no latitude
  give no record at all.
\<close>

theorem C3_reconcile_counterexample:
  "(\<exists>r1 r2 r3.
      reconcile sample_conv (map scan_row [scan_xyz, scan_abc]) (map proxy_row [order_xyz, order_claimed])
        = Inr [r1, r2, r3]
      \<and> lat scan_xyz = PStr ''-33.45'' \<and> r1 ''lat'' = Some (PFloat ''-33.45'')
      \<and> matching [order_xyz, order_claimed] scan_abc = [] \<and> r3 ''tariff'' = Some (PStr ''Unknown''))
   \<and> length [scan_xyz, scan_no_location, scan_abc] = 3
   \<and> reconcile sample_conv (map scan_row [scan_xyz, scan_no_location, scan_abc])
        (map proxy_row [order_xyz]) = Inl TypeError"
proof -
  have "\<exists>r1 r2 r3.
      reconcile sample_conv (map scan_row [scan_xyz, scan_abc]) (map proxy_row [order_xyz, order_claimed])
        = Inr [r1, r2, r3]
      \<and> r1 ''lat'' = Some (PFloat ''-33.45'') \<and> r3 ''tariff'' = Some (PStr ''Unknown'')"
    by (simp add: sample_eval)
  then obtain r1 r2 r3 where
    run: "reconcile sample_conv (map scan_row [scan_xyz, scan_abc])
        (map proxy_row [order_xyz, order_claimed]) = Inr [r1, r2, r3]"
    and f: "r1 ''lat'' = Some (PFloat ''-33.45'')" "r3 ''tariff'' = Some (PStr ''Unknown'')"
    by blast
  have l: "lat scan_xyz = PStr ''-33.45''"
    by (simp add: scan_xyz_def)
  have a: "\<exists>r1 r2 r3.
      reconcile sample_conv (map scan_row [scan_xyz, scan_abc]) (map proxy_row [order_xyz, order_claimed])
        = Inr [r1, r2, r3]
      \<and> lat scan_xyz = PStr ''-33.45'' \<and> r1 ''lat'' = Some (PFloat ''-33.45'')
      \<and> matching [order_xyz, order_claimed] scan_abc = [] \<and> r3 ''tariff'' = Some (PStr ''Unknown'')"
    by (intro exI[of _ r1] exI[of _ r2] exI[of _ r3] conjI run l f sample_matching(2))
  have b: "length [scan_xyz, scan_no_location, scan_abc] = 3"
    by simp
  have c: "reconcile sample_conv (map scan_row [scan_xyz, scan_no_location, scan_abc])
        (map proxy_row [order_xyz]) = Inl TypeError"
    by (simp add: sample_eval)
  show ?thesis
    by (intro conjI a b c)
qed

text \<open>
  Claim C3, amended. The reconciliation returns records exactly when the \<^verbatim>\<open>lat\<close> and
  the \<^verbatim>\<open>lon\<close> of every scan can be coerced to a double. It then returns one record
  for every pair of the left join, in their order: one per scan and matching order, and
  exactly one for a scan that matches no order. So there are at least as many records as
  scans, more when several orders share a barcode. Every record carries the scan fields
  of its scan unchanged, except \<^verbatim>\<open>lat\<close> and \<^verbatim>\<open>lon\<close>, which are the doubles that
  \<^verbatim>\<open>float\<close> gives for the scan's. The record of a scan without an order has NaN in
  every order column except \<^verbatim>\<open>tariff\<close>, which is \<^verbatim>\<open>Unknown\<close>; the record of a scan
  with an order has the order's fields, as the merged frame holds them, in every order
  column except \<^verbatim>\<open>tariff\<close> and \<^verbatim>\<open>lo_code\<close>.
\<close>

theorem C3_reconcile_join:
  assumes "reconcile conv (map scan_row scans) (map proxy_row orders) = Inr out"
  shows "length out = sum_list (map (\<lambda>s. max 1 (length (matching orders s))) scans)
     \<and> length scans \<le> length out
     \<and> list_all2 (\<lambda>(s, order) r.
          (\<forall>c \<in> set scan_columns. c \<noteq> ''lat'' \<longrightarrow> c \<noteq> ''lon'' \<longrightarrow> r c = scan_row s c) \<and>
          (\<exists>x y. py_float conv (lat s) = Inr x \<and> py_float conv (lon s) = Inr y \<and>
             r ''lat'' = Some x \<and> r ''lon'' = Some y) \<and>
          (case order of
             None \<Rightarrow>
               matching orders s = [] \<and>
               (\<forall>c \<in> set proxy_columns. c \<noteq> ''tariff'' \<longrightarrow> r c = Some NaN) \<and>
               r ''tariff'' = Some (PStr ''Unknown'')
           | Some t \<Rightarrow>
               t \<in> set (matching orders s) \<and>
               (\<forall>c \<in> set proxy_columns. c \<noteq> ''tariff'' \<longrightarrow> c \<noteq> ''lo_code'' \<longrightarrow>
                  (\<exists>vs v. proxy_row t c = Some v \<and> r c = Some (astype conv vs v)))))
        (join_pairs orders scans) out
     \<and> (\<forall>scans' orders'.
          (\<exists>res. reconcile conv (map scan_row scans') (map proxy_row orders') = Inr res) \<longleftrightarrow>
          (\<forall>s \<in> set scans'. coercible conv (lat s) \<and> coercible conv (lon s)))"
proof -
  let ?R = "\<lambda>(s, order) r.
          (\<forall>c \<in> set scan_columns. c \<noteq> ''lat'' \<longrightarrow> c \<noteq> ''lon'' \<longrightarrow> r c = scan_row s c) \<and>
          (\<exists>x y. py_float conv (lat s) = Inr x \<and> py_float conv (lon s) = Inr y \<and>
             r ''lat'' = Some x \<and> r ''lon'' = Some y) \<and>
          (case order of
             None \<Rightarrow>
               matching orders s = [] \<and>
               (\<forall>c \<in> set proxy_columns. c \<noteq> ''tariff'' \<longrightarrow> r c = Some NaN) \<and>
               r ''tariff'' = Some (PStr ''Unknown'')
           | Some t \<Rightarrow>
               t \<in> set (matching orders s) \<and>
               (\<forall>c \<in> set proxy_columns. c \<noteq> ''tariff'' \<longrightarrow> c \<noteq> ''lo_code'' \<longrightarrow>
                  (\<exists>vs v. proxy_row t c = Some v \<and> r c = Some (astype conv vs v))))"
  from assms obtain merged where
    mg: "merge_left conv (map scan_row scans) (map proxy_row orders)
           ''scanned_barcode_value'' ''barcode'' proxy_columns = Inr merged"
    and all: "list_all2 (\<lambda>m r. reconcile_row conv m = Inr r) merged out"
    unfolding reconcile_rows by blast
  from merged_pairs[OF mg] obtain col where
    pm: "list_all2 (\<lambda>p m. p \<in> set (join_pairs orders scans) \<and>
           (\<forall>c. m c = (if c \<in> set proxy_columns then map_option (astype conv (col c)) (pair_row p c)
                        else pair_row p c)))
         (join_pairs orders scans) merged"
    by blast
  from pm all have len: "length out = length (join_pairs orders scans)"
    by (simp add: list_all2_lengthD)
  have 1: "length out = sum_list (map (\<lambda>s. max 1 (length (matching orders s))) scans)"
    unfolding len by (rule length_join_pairs)
  have 2: "length scans \<le> length out"
    unfolding len by (rule length_join_pairs)
  from pm all have "list_all2 (\<lambda>p r. \<exists>m. (p \<in> set (join_pairs orders scans) \<and>
           (\<forall>c. m c = (if c \<in> set proxy_columns then map_option (astype conv (col c)) (pair_row p c)
                        else pair_row p c))) \<and> reconcile_row conv m = Inr r)
         (join_pairs orders scans) out"
    unfolding list_all2_compose[symmetric] by blast
  then have 3: "list_all2 ?R (join_pairs orders scans) out"
  proof (rule list_all2_mono)
    fix p r
    assume "\<exists>m. (p \<in> set (join_pairs orders scans) \<and>
           (\<forall>c. m c = (if c \<in> set proxy_columns then map_option (astype conv (col c)) (pair_row p c)
                        else pair_row p c))) \<and> reconcile_row conv m = Inr r"
    then obtain m where p: "p \<in> set (join_pairs orders scans)"
      and m: "\<forall>c. m c = (if c \<in> set proxy_columns
                then map_option (astype conv (col c)) (pair_row p c) else pair_row p c)"
      and r: "reconcile_row conv m = Inr r"
      by blast
    obtain s ot where sp: "p = (s, ot)" by (cases p)
    note rec = pair_record[OF m[unfolded sp] r]
    from join_pairs_member[OF p[unfolded sp]] have mem:
      "case ot of None \<Rightarrow> matching orders s = [] | Some t \<Rightarrow> t \<in> set (matching orders s)"
      by (cases ot) simp_all
    show "?R p r"
    proof (cases ot)
      case None
      with mem rec(1) rec(2) rec(3)[OF None] show ?thesis unfolding sp by simp
    next
      case (Some t)
      with mem rec(1) rec(2) rec(4)[OF Some] show ?thesis unfolding sp by simp
    qed
  qed
  have 4: "\<forall>scans' orders'.
          (\<exists>res. reconcile conv (map scan_row scans') (map proxy_row orders') = Inr res) \<longleftrightarrow>
          (\<forall>s \<in> set scans'. coercible conv (lat s) \<and> coercible conv (lon s))"
    using reconcile_typed_iff by blast
  show ?thesis
    by (intro conjI 1 2 3 4)
qed

theorem C3_reconcile_join_witness:
  "\<exists>r1 r2 r3.
     reconcile sample_conv (map scan_row [scan_xyz, scan_abc]) (map proxy_row [order_xyz, order_claimed])
       = Inr [r1, r2, r3]
     \<and> join_pairs [order_xyz, order_claimed] [scan_xyz, scan_abc] =
         [(scan_xyz, Some order_xyz), (scan_xyz, Some order_claimed), (scan_abc, None)]
     \<and> length [scan_xyz, scan_abc] \<le> length [r1, r2, r3]
     \<and> r1 ''courier_uuid'' = Some (PStr ''courier-1'')
     \<and> r3 ''scanned_barcode_value'' = Some (PStr ''ABC123'')
     \<and> (\<exists>x. py_float sample_conv (lat scan_xyz) = Inr x \<and> r1 ''lat'' = Some x)
     \<and> r3 ''barcode'' = Some NaN \<and> r3 ''tariff'' = Some (PStr ''Unknown'')
     \<and> (\<exists>vs. r1 ''barcode'' = Some (astype sample_conv vs (PStr ''XYZ999'')))
     \<and> coercible sample_conv (lat scan_xyz) \<and> coercible sample_conv (lon scan_abc)"
proof -
  from sample_run obtain r1 r2 r3 where
    run: "reconcile sample_conv (map scan_row [scan_xyz, scan_abc])
            (map proxy_row [order_xyz, order_claimed]) = Inr [r1, r2, r3]"
    by blast
  note c3 = C3_reconcile_join[OF run]
  have pairs: "join_pairs [order_xyz, order_claimed] [scan_xyz, scan_abc] =
         [(scan_xyz, Some order_xyz), (scan_xyz, Some order_claimed), (scan_abc, None)]"
    by (simp add: join_pairs_def sample_matching)
  note len = c3[THEN conjunct2, THEN conjunct1]
  note rel = c3[THEN conjunct2, THEN conjunct2, THEN conjunct1, unfolded pairs]
  note tot = c3[THEN conjunct2, THEN conjunct2, THEN conjunct2]
  from rel have
    s1: "\<forall>c \<in> set scan_columns. c \<noteq> ''lat'' \<longrightarrow> c \<noteq> ''lon'' \<longrightarrow> r1 c = scan_row scan_xyz c"
    and x1: "\<exists>x y. py_float sample_conv (lat scan_xyz) = Inr x \<and>
        py_float sample_conv (lon scan_xyz) = Inr y \<and> r1 ''lat'' = Some x \<and> r1 ''lon'' = Some y"
    and o1: "\<forall>c \<in> set proxy_columns. c \<noteq> ''tariff'' \<longrightarrow> c \<noteq> ''lo_code'' \<longrightarrow>
        (\<exists>vs v. proxy_row order_xyz c = Some v \<and> r1 c = Some (astype sample_conv vs v))"
    and s3: "\<forall>c \<in> set scan_columns. c \<noteq> ''lat'' \<longrightarrow> c \<noteq> ''lon'' \<longrightarrow> r3 c = scan_row scan_abc c"
    and n3: "\<forall>c \<in> set proxy_columns. c \<noteq> ''tariff'' \<longrightarrow> r3 c = Some NaN"
    and t3: "r3 ''tariff'' = Some (PStr ''Unknown'')"
    by simp_all
  from s1 have "r1 ''courier_uuid'' = scan_row scan_xyz ''courier_uuid''"
    by (simp add: scan_columns_def)
  then have a: "r1 ''courier_uuid'' = Some (PStr ''courier-1'')"
    by (simp add: scan_row_fields scan_xyz_def)
  from s3 have "r3 ''scanned_barcode_value'' = scan_row scan_abc ''scanned_barcode_value''"
    by (simp add: scan_columns_def)
  then have b: "r3 ''scanned_barcode_value'' = Some (PStr ''ABC123'')"
    by (simp add: scan_row_fields scan_abc_def scan_xyz_def)
  from x1 have c: "\<exists>x. py_float sample_conv (lat scan_xyz) = Inr x \<and> r1 ''lat'' = Some x"
    by blast
  from n3 have d: "r3 ''barcode'' = Some NaN"
    by (simp add: proxy_columns_def)
  from o1 have "\<exists>vs v. proxy_row order_xyz ''barcode'' = Some v \<and>
      r1 ''barcode'' = Some (astype sample_conv vs v)"
    by (simp add: proxy_columns_def)
  then have e: "\<exists>vs. r1 ''barcode'' = Some (astype sample_conv vs (PStr ''XYZ999''))"
    by (simp add: proxy_row_fields order_xyz_def)
  have "\<exists>res. reconcile sample_conv (map scan_row [scan_xyz, scan_abc])
      (map proxy_row [order_xyz, order_claimed]) = Inr res"
    using run by blast
  with tot have "\<forall>s \<in> set [scan_xyz, scan_abc].
      coercible sample_conv (lat s) \<and> coercible sample_conv (lon s)"
    by blast
  then have f: "coercible sample_conv (lat scan_xyz)" "coercible sample_conv (lon scan_abc)"
    by simp_all
  show ?thesis
    by (intro exI[of _ r1] exI[of _ r2] exI[of _ r3] conjI run pairs len a b c d t3 e f)
qed
section \<open>The derived fields\<close>

text \<open>
  Claim C1. Every record of the reconciled frame has a \<^verbatim>\<open>pick_status\<close>, and it is one of
  \<^verbatim>\<open>Missing\<close>, \<^verbatim>\<open>Picked\<close>, \<^verbatim>\<open>Received\<close>: \<^verbatim>\<open>Missing\<close> when the record's
  \<^verbatim>\<open>barcode\<close> (the order side of the join) is null, else \<^verbatim>\<open>Picked\<close> when its
  \<^verbatim>\<open>claim_id\<close> is null, else \<^verbatim>\<open>Received\<close>. No other field counts: two reconciled
  records, of any two runs, that agree on \<^verbatim>\<open>barcode\<close> and \<^verbatim>\<open>claim_id\<close> have the same
  status.
\<close>

theorem C1_pick_status:
  assumes "reconcile conv scan_frame proxy_frame = Inr out" and "r \<in> set out"
  shows "(\<exists>b c. r ''barcode'' = Some b \<and> (isna b \<or> r ''claim_id'' = Some c) \<and>
            r ''pick_status'' = Some (PStr (pick_status_of b c)) \<and>
            pick_status_of b c \<in> {''Missing'', ''Picked'', ''Received''} \<and>
            (pick_status_of b c = ''Missing'' \<longleftrightarrow> isna b) \<and>
            (pick_status_of b c = ''Picked'' \<longleftrightarrow> \<not> isna b \<and> isna c) \<and>
            (pick_status_of b c = ''Received'' \<longleftrightarrow> \<not> isna b \<and> \<not> isna c))
       \<and> (\<forall>conv' scan_frame' proxy_frame' out' r'.
            reconcile conv' scan_frame' proxy_frame' = Inr out' \<longrightarrow> r' \<in> set out' \<longrightarrow>
            r' ''barcode'' = r ''barcode'' \<longrightarrow> r' ''claim_id'' = r ''claim_id'' \<longrightarrow>
            r' ''pick_status'' = r ''pick_status'')"
proof -
  have shape: "\<exists>b c. r ''barcode'' = Some b \<and> (isna b \<or> r ''claim_id'' = Some c) \<and>
                 r ''pick_status'' = Some (PStr (pick_status_of b c))"
    if "reconcile conv scan_frame proxy_frame = Inr out" "r \<in> set out"
    for conv scan_frame proxy_frame out and r :: row
  proof -
    from reconcile_record[OF that] obtain m where "reconcile_row conv m = Inr r" by blast
    from reconcile_row_result[OF this] obtain code x y t v bc c where
      "m ''barcode'' = Some bc" "isna bc \<or> m ''claim_id'' = Some c"
      "r = m(''scannable_qr'' \<mapsto> PStr (''http://qrcoder.ru/code/?'' @ py_str code @ ''&4&0''),
                 ''lat'' \<mapsto> x, ''lon'' \<mapsto> y,
                 ''tariff'' \<mapsto> PStr (tariff_label t),
                 ''lo_code'' \<mapsto> lo_code_display v,
                 ''pick_status'' \<mapsto> PStr (pick_status_of bc c))"
      by blast
    then have "r ''barcode'' = Some bc \<and> (isna bc \<or> r ''claim_id'' = Some c) \<and>
                 r ''pick_status'' = Some (PStr (pick_status_of bc c))"
      by simp
    then show ?thesis by blast
  qed
  have range: "pick_status_of b c \<in> {''Missing'', ''Picked'', ''Received''} \<and>
            (pick_status_of b c = ''Missing'' \<longleftrightarrow> isna b) \<and>
            (pick_status_of b c = ''Picked'' \<longleftrightarrow> \<not> isna b \<and> isna c) \<and>
            (pick_status_of b c = ''Received'' \<longleftrightarrow> \<not> isna b \<and> \<not> isna c)" for b c
    by (simp add: pick_status_of_def)
  have same: "r' ''pick_status'' = r ''pick_status''"
    if "reconcile conv' scan_frame' proxy_frame' = Inr out'" "r' \<in> set out'"
      "r' ''barcode'' = r ''barcode''" "r' ''claim_id'' = r ''claim_id''"
    for conv' scan_frame' proxy_frame' out' r'
  proof -
    from shape[OF assms] obtain b c where
      r: "r ''barcode'' = Some b" "isna b \<or> r ''claim_id'' = Some c"
         "r ''pick_status'' = Some (PStr (pick_status_of b c))" by blast
    from shape[OF that(1,2)] obtain b' c' where
      r': "r' ''barcode'' = Some b'" "isna b' \<or> r' ''claim_id'' = Some c'"
         "r' ''pick_status'' = Some (PStr (pick_status_of b' c'))" by blast
    from r(1) r'(1) that(3) have "b' = b" by simp
    with r r' that(4) show ?thesis by (auto simp: pick_status_of_def)
  qed
  from shape[OF assms] range same show ?thesis by blast
qed

theorem C1_pick_status_witness:
  "\<exists>out r b c.
     reconcile sample_conv (map scan_row [scan_xyz, scan_abc]) (map proxy_row [order_xyz, order_claimed])
       = Inr out \<and> r \<in> set out \<and>
     r ''barcode'' = Some b \<and> b = PStr ''XYZ999'' \<and> r ''claim_id'' = Some c \<and> c = PNone \<and>
     r ''pick_status'' = Some (PStr (pick_status_of b c)) \<and> pick_status_of b c = ''Picked''"
proof -
  from sample_run obtain r1 r2 r3 where
    run: "reconcile sample_conv (map scan_row [scan_xyz, scan_abc])
            (map proxy_row [order_xyz, order_claimed]) = Inr [r1, r2, r3]"
    and r1: "r1 ''barcode'' = Some (PStr ''XYZ999'')" "r1 ''claim_id'' = Some PNone"
    by blast
  have mem: "r1 \<in> set [r1, r2, r3]" by simp
  from C1_pick_status[OF run mem] r1
  have "r1 ''pick_status'' = Some (PStr (pick_status_of (PStr ''XYZ999'') PNone))
        \<and> pick_status_of (PStr ''XYZ999'') PNone = ''Picked''"
    by auto
  with run mem r1 show ?thesis by blast
qed

text \<open>
  Claim C2. Every record of the reconciled frame has a \<^verbatim>\<open>tariff\<close> that is one of the
  labels \<^verbatim>\<open>Unknown\<close>, \<^verbatim>\<open>SDD\<close>, \<^verbatim>\<open>NDD\<close>, and the label is a function of the raw
  tariff of the joined row alone (the order's tariff, or NaN for a scan with no order):
  a null tariff gives \<^verbatim>\<open>Unknown\<close>, zero gives \<^verbatim>\<open>SDD\<close>, any other value \<^verbatim>\<open>NDD\<close>.
\<close>

theorem C2_tariff_label:
  assumes "reconcile conv scan_frame proxy_frame = Inr out"
  shows "\<exists>merged. merge_left conv scan_frame proxy_frame ''scanned_barcode_value'' ''barcode'' proxy_columns
            = Inr merged \<and>
          list_all2 (\<lambda>m r. \<exists>t. m ''tariff'' = Some t \<and> r ''tariff'' = Some (PStr (tariff_label t)) \<and>
              tariff_label t \<in> {''Unknown'', ''SDD'', ''NDD''} \<and>
              (tariff_label t = ''Unknown'' \<longleftrightarrow> isna t) \<and>
              (tariff_label t = ''SDD'' \<longleftrightarrow> \<not> isna t \<and> eq_zero t) \<and>
              (tariff_label t = ''NDD'' \<longleftrightarrow> \<not> isna t \<and> \<not> eq_zero t)) merged out"
proof -
  from assms obtain merged where
    m: "merge_left conv scan_frame proxy_frame ''scanned_barcode_value'' ''barcode'' proxy_columns = Inr merged"
    and all: "list_all2 (\<lambda>m r. reconcile_row conv m = Inr r) merged out"
    unfolding reconcile_rows by blast
  have step: "\<exists>t. m ''tariff'' = Some t \<and> r ''tariff'' = Some (PStr (tariff_label t)) \<and>
              tariff_label t \<in> {''Unknown'', ''SDD'', ''NDD''} \<and>
              (tariff_label t = ''Unknown'' \<longleftrightarrow> isna t) \<and>
              (tariff_label t = ''SDD'' \<longleftrightarrow> \<not> isna t \<and> eq_zero t) \<and>
              (tariff_label t = ''NDD'' \<longleftrightarrow> \<not> isna t \<and> \<not> eq_zero t)"
    if "reconcile_row conv m = Inr r" for m r
  proof -
    from reconcile_row_result[OF that] obtain code x y t v bc c where
      t: "m ''tariff'' = Some t" and
      r: "r = m(''scannable_qr'' \<mapsto> PStr (''http://qrcoder.ru/code/?'' @ py_str code @ ''&4&0''),
                 ''lat'' \<mapsto> x, ''lon'' \<mapsto> y,
                 ''tariff'' \<mapsto> PStr (tariff_label t),
                 ''lo_code'' \<mapsto> lo_code_display v,
                 ''pick_status'' \<mapsto> PStr (pick_status_of bc c))"
      by blast
    from r have "r ''tariff'' = Some (PStr (tariff_label t))" by simp
    with t show ?thesis by (auto simp: tariff_label_def)
  qed
  from all have "list_all2 (\<lambda>m r. \<exists>t. m ''tariff'' = Some t \<and> r ''tariff'' = Some (PStr (tariff_label t)) \<and>
              tariff_label t \<in> {''Unknown'', ''SDD'', ''NDD''} \<and>
              (tariff_label t = ''Unknown'' \<longleftrightarrow> isna t) \<and>
              (tariff_label t = ''SDD'' \<longleftrightarrow> \<not> isna t \<and> eq_zero t) \<and>
              (tariff_label t = ''NDD'' \<longleftrightarrow> \<not> isna t \<and> \<not> eq_zero t)) merged out"
    by (rule list_all2_mono) (rule step)
  with m show ?thesis by blast
qed

theorem C2_tariff_label_witness:
  "\<exists>merged r1 r2 r3.
     merge_left sample_conv (map scan_row [scan_xyz, scan_abc]) (map proxy_row [order_xyz, order_claimed])
       ''scanned_barcode_value'' ''barcode'' proxy_columns = Inr merged \<and>
     reconcile sample_conv (map scan_row [scan_xyz, scan_abc]) (map proxy_row [order_xyz, order_claimed])
       = Inr [r1, r2, r3] \<and>
     map (\<lambda>m. m ''tariff'') merged = [Some (PFloat ''0.0''), Some (PFloat ''1.0''), Some NaN] \<and>
     map (\<lambda>r. r ''tariff'') [r1, r2, r3] =
       [Some (PStr (tariff_label (PFloat ''0.0''))), Some (PStr (tariff_label (PFloat ''1.0''))),
        Some (PStr (tariff_label NaN))] \<and>
     tariff_label (PFloat ''0.0'') = ''SDD'' \<and> tariff_label (PFloat ''1.0'') = ''NDD'' \<and>
     tariff_label NaN = ''Unknown''"
proof -
  from sample_merged_frame obtain m1 m2 m3 where
    mg: "merge_left sample_conv (map scan_row [scan_xyz, scan_abc])
       (map proxy_row [order_xyz, order_claimed])
       ''scanned_barcode_value'' ''barcode'' proxy_columns = Inr [m1, m2, m3]"
    and t: "m1 ''tariff'' = Some (PFloat ''0.0'')" "m2 ''tariff'' = Some (PFloat ''1.0'')"
      "m3 ''tariff'' = Some NaN"
    by blast
  from sample_run obtain r1 r2 r3 where
    run: "reconcile sample_conv (map scan_row [scan_xyz, scan_abc])
            (map proxy_row [order_xyz, order_claimed]) = Inr [r1, r2, r3]"
    by blast
  have raw: "map (\<lambda>m. m ''tariff'') [m1, m2, m3] =
      [Some (PFloat ''0.0''), Some (PFloat ''1.0''), Some NaN]"
    by (simp add: t)
  from C2_tariff_label[OF run] obtain merged where
    m: "merge_left sample_conv (map scan_row [scan_xyz, scan_abc])
       (map proxy_row [order_xyz, order_claimed])
       ''scanned_barcode_value'' ''barcode'' proxy_columns = Inr merged"
    and all: "list_all2 (\<lambda>m r. \<exists>t. m ''tariff'' = Some t \<and> r ''tariff'' = Some (PStr (tariff_label t)) \<and>
              tariff_label t \<in> {''Unknown'', ''SDD'', ''NDD''} \<and>
              (tariff_label t = ''Unknown'' \<longleftrightarrow> isna t) \<and>
              (tariff_label t = ''SDD'' \<longleftrightarrow> \<not> isna t \<and> eq_zero t) \<and>
              (tariff_label t = ''NDD'' \<longleftrightarrow> \<not> isna t \<and> \<not> eq_zero t)) merged [r1, r2, r3]"
    by blast
  from m mg have meq: "merged = [m1, m2, m3]"
    by simp
  have "list_all2 (\<lambda>m r. \<exists>t. m ''tariff'' = Some t \<and> r ''tariff'' = Some (PStr (tariff_label t)))
          merged [r1, r2, r3]"
    by (rule list_all2_mono[OF all]) blast
  then have "\<exists>t. m1 ''tariff'' = Some t \<and> r1 ''tariff'' = Some (PStr (tariff_label t))"
    and "\<exists>t. m2 ''tariff'' = Some t \<and> r2 ''tariff'' = Some (PStr (tariff_label t))"
    and "\<exists>t. m3 ''tariff'' = Some t \<and> r3 ''tariff'' = Some (PStr (tariff_label t))"
    by (simp_all only: meq list_all2_Cons list_all2_Nil simp_thms)
  then have out: "map (\<lambda>r. r ''tariff'') [r1, r2, r3] =
       [Some (PStr (tariff_label (PFloat ''0.0''))), Some (PStr (tariff_label (PFloat ''1.0''))),
        Some (PStr (tariff_label NaN))]"
    by (simp add: t)
  have labels: "tariff_label (PFloat ''0.0'') = ''SDD''" "tariff_label (PFloat ''1.0'') = ''NDD''"
      "tariff_label NaN = ''Unknown''"
    by (simp_all add: tariff_label_def)
  show ?thesis
    by (intro exI[of _ "[m1, m2, m3]"] exI[of _ r1] exI[of _ r2] exI[of _ r3] conjI
        mg run raw out labels)
qed


section \<open>The filters\<close>

text \<open>
  Claim C6. On the reconciled records the four filters of lines 173 to 183 always return,
  and keep exactly the records that pass the filter set: for every selection that is not
  empty the record's value in that column is a member, and an empty selection asks
  nothing. So filtering with one filter set and then with a second keeps exactly the
  records that pass both, which is also what the two give in the other order.
\<close>

theorem C6_filter_composition:
  assumes "reconcile conv (map scan_row scans) (map proxy_row orders) = Inr merged"
  shows "apply_filters F1 merged = Inr (filter (passes F1) merged)
       \<and> ebind (apply_filters F1 merged) (apply_filters F2)
           = Inr (filter (\<lambda>r. passes F1 r \<and> passes F2 r) merged)
       \<and> ebind (apply_filters F1 merged) (apply_filters F2)
           = ebind (apply_filters F2 merged) (apply_filters F1)
       \<and> (\<forall>r. passes F1 r \<longleftrightarrow>
             (couriers F1 \<noteq> [] \<longrightarrow> (\<exists>x \<in> set (couriers F1). r ''courier_uuid'' = Some x)) \<and>
             (clients F1 \<noteq> [] \<longrightarrow> (\<exists>x \<in> set (clients F1). r ''corp_client_id'' = Some x)) \<and>
             (tariffs F1 \<noteq> [] \<longrightarrow> (\<exists>x \<in> set (tariffs F1). r ''tariff'' = Some x)) \<and>
             (filtered_statuses F1 \<noteq> [] \<longrightarrow>
                (\<exists>x \<in> set (filtered_statuses F1). r ''pick_status'' = Some x)))"
proof -
  note cols = reconciled_filter_columns[OF assms]
  have one: "apply_filters F fr = Inr (filter (passes F) fr)"
    if "set fr \<subseteq> set merged" for F fr
    by (rule apply_filters_total) (use cols that in blast)
  have 1: "apply_filters F1 merged = Inr (filter (passes F1) merged)"
    by (rule one) simp
  have 2: "apply_filters F2 merged = Inr (filter (passes F2) merged)"
    by (rule one) simp
  have 12: "apply_filters F2 (filter (passes F1) merged) = Inr (filter (passes F2) (filter (passes F1) merged))"
    by (rule one) auto
  have 21: "apply_filters F1 (filter (passes F2) merged) = Inr (filter (passes F1) (filter (passes F2) merged))"
    by (rule one) auto
  have a: "ebind (apply_filters F1 merged) (apply_filters F2)
           = Inr (filter (\<lambda>r. passes F1 r \<and> passes F2 r) merged)"
    unfolding 1 ebind_Inr 12 by (auto intro: filter_cong)
  have b: "ebind (apply_filters F2 merged) (apply_filters F1)
           = Inr (filter (\<lambda>r. passes F1 r \<and> passes F2 r) merged)"
    unfolding 2 ebind_Inr 21 by (auto intro: filter_cong)
  have c: "passes F1 r \<longleftrightarrow>
             (couriers F1 \<noteq> [] \<longrightarrow> (\<exists>x \<in> set (couriers F1). r ''courier_uuid'' = Some x)) \<and>
             (clients F1 \<noteq> [] \<longrightarrow> (\<exists>x \<in> set (clients F1). r ''corp_client_id'' = Some x)) \<and>
             (tariffs F1 \<noteq> [] \<longrightarrow> (\<exists>x \<in> set (tariffs F1). r ''tariff'' = Some x)) \<and>
             (filtered_statuses F1 \<noteq> [] \<longrightarrow>
                (\<exists>x \<in> set (filtered_statuses F1). r ''pick_status'' = Some x))" for r
    unfolding passes_def member_of_def by blast
  from 1 a b c show ?thesis by simp
qed

theorem C6_filter_composition_witness:
  "\<exists>r1 r2 r3.
     reconcile sample_conv (map scan_row [scan_xyz, scan_abc]) (map proxy_row [order_xyz, order_claimed])
       = Inr [r1, r2, r3] \<and>
     ebind (apply_filters \<lparr>couriers = [PStr ''courier-1''], clients = [], tariffs = [],
                            filtered_statuses = []\<rparr> [r1, r2, r3])
       (apply_filters \<lparr>couriers = [], clients = [], tariffs = [],
                        filtered_statuses = [PStr ''Picked'', PStr ''Missing'']\<rparr>) = Inr [r1] \<and>
     apply_filters \<lparr>couriers = [PStr ''courier-1''], clients = [], tariffs = [],
                    filtered_statuses = []\<rparr> [r1, r2, r3] = Inr [r1, r2] \<and>
     apply_filters \<lparr>couriers = [], clients = [], tariffs = [],
                    filtered_statuses = [PStr ''Picked'', PStr ''Missing'']\<rparr> [r1, r2, r3] = Inr [r1, r3]"
proof -
  let ?F1 = "\<lparr>couriers = [PStr ''courier-1''], clients = [], tariffs = [], filtered_statuses = []\<rparr>"
  let ?F2 = "\<lparr>couriers = [], clients = [], tariffs = [],
               filtered_statuses = [PStr ''Picked'', PStr ''Missing'']\<rparr>"
  from sample_run obtain r1 r2 r3 where
    run: "reconcile sample_conv (map scan_row [scan_xyz, scan_abc])
            (map proxy_row [order_xyz, order_claimed]) = Inr [r1, r2, r3]"
    and f: "r1 ''pick_status'' = Some (PStr ''Picked'')" "r1 ''courier_uuid'' = Some (PStr ''courier-1'')"
      "r2 ''pick_status'' = Some (PStr ''Received'')" "r2 ''courier_uuid'' = Some (PStr ''courier-1'')"
      "r3 ''pick_status'' = Some (PStr ''Missing'')" "r3 ''courier_uuid'' = Some (PStr ''courier-2'')"
    by blast
  have p: "passes ?F1 r1" "passes ?F1 r2" "\<not> passes ?F1 r3"
    "passes ?F2 r1" "\<not> passes ?F2 r2" "passes ?F2 r3"
    by (simp_all add: passes_def member_of_def f)
  note c12 = C6_filter_composition[OF run, of ?F1 ?F2]
  note c21 = C6_filter_composition[OF run, of ?F2 ?F1]
  have e1: "filter (passes ?F1) [r1, r2, r3] = [r1, r2]"
    and e2: "filter (passes ?F2) [r1, r2, r3] = [r1, r3]"
    and e12: "filter (\<lambda>r. passes ?F1 r \<and> passes ?F2 r) [r1, r2, r3] = [r1]"
    by (simp_all add: p)
  have a: "apply_filters ?F1 [r1, r2, r3] = Inr [r1, r2]"
    using c12[THEN conjunct1] by (simp only: e1)
  have b: "apply_filters ?F2 [r1, r2, r3] = Inr [r1, r3]"
    using c21[THEN conjunct1] by (simp only: e2)
  have c: "ebind (apply_filters ?F1 [r1, r2, r3]) (apply_filters ?F2) = Inr [r1]"
    using c12[THEN conjunct2, THEN conjunct1] by (simp only: e12)
  show ?thesis
    by (intro exI[of _ r1] exI[of _ r2] exI[of _ r3] conjI run a b c)
qed

section \<open>The report\<close>

text \<open>
  Claim C9, as the specification states it, fails: the two metrics are computed on
  lines 167 to 171, before the filters of lines 173 to 183 run. With the sample data and
  the courier filter set to \<^verbatim>\<open>courier-1\<close> the page shows 3 scan events and 1 match
  error, while the filtered table has 2 records and none of them is \<^verbatim>\<open>Missing\<close>.
\<close>

theorem C9_counts_counterexample:
  "\<exists>rep. first_mile_monitor sample_conv [order_xyz, order_claimed] [scan_xyz, scan_abc]
       \<lparr>couriers = [PStr ''courier-1''], clients = [], tariffs = [], filtered_statuses = []\<rparr>
       = Inr rep \<and>
     scan_events rep = 3 \<and> length (visible_frame rep) = 2 \<and>
     scan_errors rep = 1 \<and>
     length (filter (\<lambda>r. r ''pick_status'' = Some (PStr ''Missing'')) (visible_frame rep)) = 0"
proof -
  from sample_report obtain r1 r2 r3 where
    rep: "first_mile_monitor sample_conv [order_xyz, order_claimed] [scan_xyz, scan_abc]
       \<lparr>couriers = [PStr ''courier-1''], clients = [], tariffs = [], filtered_statuses = []\<rparr>
       = Inr \<lparr>scan_events = 3, scan_errors = 1,
              visible_frame = [r1 |` set visible_columns, r2 |` set visible_columns]\<rparr>"
    and f: "r1 ''pick_status'' = Some (PStr ''Picked'')" "r2 ''pick_status'' = Some (PStr ''Received'')"
    by blast
  have "length (filter (\<lambda>r. r ''pick_status'' = Some (PStr ''Missing''))
          [r1 |` set visible_columns, r2 |` set visible_columns]) = 0"
    by (simp add: f visible_columns_def)
  with rep show ?thesis by simp
qed

text \<open>
  Claim C9, amended. The row-count summary is computed over the reconciled frame before
  any filter is applied: the first metric is the number of reconciled records, the second
  the number of them whose \<^verbatim>\<open>pick_status\<close> is \<^verbatim>\<open>Missing\<close>. Both are the same for every
  choice of filter sets; only the table shown is filtered.
\<close>

theorem C9_counts_unfiltered:
  assumes "first_mile_monitor conv orders scans sel = Inr rep"
  shows "\<exists>merged.
           reconcile conv (map scan_row scans) (map proxy_row (filter (\<lambda>t. \<not> is_retry t) (data_frame conv orders)))
             = Inr merged \<and>
           scan_events rep = length merged \<and>
           scan_errors rep = length (filter (\<lambda>r. r ''pick_status'' = Some (PStr ''Missing'')) merged) \<and>
           length (visible_frame rep) = length (filter (passes sel) merged) \<and>
           (\<forall>sel' rep'. first_mile_monitor conv orders scans sel' = Inr rep' \<longrightarrow>
              scan_events rep' = scan_events rep \<and> scan_errors rep' = scan_errors rep)"
proof -
  from first_mile_monitor_Inr[OF assms] obtain merged where
    r: "reconcile conv (map scan_row scans) (map proxy_row (filter (\<lambda>t. \<not> is_retry t) (data_frame conv orders)))
             = Inr merged"
    and rep: "rep = \<lparr>scan_events = length merged,
                  scan_errors = length (filter (\<lambda>r. r ''pick_status'' = Some (PStr ''Missing'')) merged),
                  visible_frame = map (\<lambda>r. r |` set visible_columns) (filter (passes sel) merged)\<rparr>"
    by blast
  have "scan_events rep' = scan_events rep \<and> scan_errors rep' = scan_errors rep"
    if "first_mile_monitor conv orders scans sel' = Inr rep'" for sel' rep'
  proof -
    from first_mile_monitor_Inr[OF that] obtain merged' where
      r': "reconcile conv (map scan_row scans) (map proxy_row (filter (\<lambda>t. \<not> is_retry t) (data_frame conv orders)))
             = Inr merged'"
      and rep': "rep' = \<lparr>scan_events = length merged',
                  scan_errors = length (filter (\<lambda>r. r ''pick_status'' = Some (PStr ''Missing'')) merged'),
                  visible_frame = map (\<lambda>r. r |` set visible_columns) (filter (passes sel') merged')\<rparr>"
      by blast
    from r r' have "merged' = merged" by simp
    with rep rep' show ?thesis by simp
  qed
  with r rep show ?thesis by auto
qed

theorem C9_counts_unfiltered_witness:
  "\<exists>rep merged.
     first_mile_monitor sample_conv [order_xyz, order_claimed] [scan_xyz, scan_abc]
       \<lparr>couriers = [PStr ''courier-1''], clients = [], tariffs = [], filtered_statuses = []\<rparr>
       = Inr rep \<and>
     reconcile sample_conv (map scan_row [scan_xyz, scan_abc]) (map proxy_row [order_xyz, order_claimed])
       = Inr merged \<and>
     scan_events rep = length merged \<and> length merged = 3 \<and>
     scan_errors rep = length (filter (\<lambda>r. r ''pick_status'' = Some (PStr ''Missing'')) merged) \<and>
     scan_errors rep = 1 \<and> length (visible_frame rep) = 2"
proof -
  let ?F = "\<lparr>couriers = [PStr ''courier-1''], clients = [], tariffs = [], filtered_statuses = []\<rparr>"
  from sample_report obtain r1 r2 r3 where
    run: "reconcile sample_conv (map scan_row [scan_xyz, scan_abc])
            (map proxy_row [order_xyz, order_claimed]) = Inr [r1, r2, r3]"
    and rep: "first_mile_monitor sample_conv [order_xyz, order_claimed] [scan_xyz, scan_abc] ?F
       = Inr \<lparr>scan_events = 3, scan_errors = 1,
              visible_frame = [r1 |` set visible_columns, r2 |` set visible_columns]\<rparr>"
    by blast
  from C9_counts_unfiltered[OF rep] obtain merged where
    m: "reconcile sample_conv (map scan_row [scan_xyz, scan_abc])
          (map proxy_row (filter (\<lambda>t. \<not> is_retry t)
             (data_frame sample_conv [order_xyz, order_claimed]))) = Inr merged"
    and c: "3 = length merged"
      "1 = length (filter (\<lambda>r. r ''pick_status'' = Some (PStr ''Missing'')) merged)"
    by auto
  from m have m': "reconcile sample_conv (map scan_row [scan_xyz, scan_abc])
          (map proxy_row [order_xyz, order_claimed]) = Inr merged"
    by (simp only: sample_frame sample_kept)
  from rep m' c show ?thesis by auto
qed

section \<open>Redelivery orders\<close>

text \<open>
  Claim C7. When line 127 returns, the order frame it leaves is the frame of exactly the
  orders that are no redelivery orders, in their order: every order whose
  \<^verbatim>\<open>external_id\<close> contains the marker \<^verbatim>\<open>_RETRY_\<close> is removed before the join. Every
  record of the reconciled frame then either has no order (its order columns are NaN) or
  carries the \<^verbatim>\<open>external_id\<close> of an order that is no redelivery order, with the
  \<^verbatim>\<open>barcode\<close> and the \<^verbatim>\<open>claim_id\<close> of that order as the merged frame holds them; no
  record has an \<^verbatim>\<open>external_id\<close> with the marker in it. This holds for every frame of
  orders; in a run of the script the frame is the one line 124 builds from the tuples,
  line 127 leaves exactly its orders that are no redelivery orders, and no row of the
  table shown has an \<^verbatim>\<open>external_id\<close> with the marker in it.
\<close>

theorem C7_redelivery_excluded:
  assumes "drop_retry (map proxy_row orders) = Inr proxy_frame"
    and "reconcile conv (map scan_row scans) proxy_frame = Inr out"
  shows "proxy_frame = map proxy_row (filter (\<lambda>t. \<not> is_retry t) orders)
     \<and> (\<forall>t \<in> set orders.
           is_retry t \<longleftrightarrow> (\<exists>s a b. routing_order_number t = PStr s \<and> s = a @ ''_RETRY_'' @ b))
     \<and> (\<forall>r \<in> set out.
           (r ''external_id'' = Some NaN \<and> r ''barcode'' = Some NaN) \<or>
           (\<exists>t \<in> set orders. \<not> is_retry t \<and> r ''external_id'' = Some (routing_order_number t) \<and>
               (\<exists>bs. r ''barcode'' = Some (astype conv bs (client_order_number t))) \<and>
               (\<exists>cs. r ''claim_id'' = Some (astype conv cs (claim_id t)))))
     \<and> (\<forall>r \<in> set out. \<forall>s a b. r ''external_id'' = Some (PStr s) \<longrightarrow> s \<noteq> a @ ''_RETRY_'' @ b)
     \<and> (\<forall>sel rep. first_mile_monitor conv orders scans sel = Inr rep \<longrightarrow>
           drop_retry (map proxy_row (data_frame conv orders)) =
             Inr (map proxy_row (filter (\<lambda>t. \<not> is_retry t) (data_frame conv orders))) \<and>
           (\<forall>r \<in> set (visible_frame rep). \<forall>s a b.
              r ''external_id'' = Some (PStr s) \<longrightarrow> s \<noteq> a @ ''_RETRY_'' @ b))"
proof -
  let ?kept = "filter (\<lambda>t. \<not> is_retry t) orders"
  from assms(1) have pf: "proxy_frame = map proxy_row ?kept"
    and ok: "\<forall>t \<in> set orders. \<exists>s. routing_order_number t = PStr s"
    unfolding drop_retry_typed by (simp_all split: if_splits)
  from ok have ok': "\<forall>t \<in> set ?kept. \<exists>s. routing_order_number t = PStr s" by simp
  have origin: "(r ''external_id'' = Some NaN \<and> r ''barcode'' = Some NaN) \<or>
           (\<exists>t \<in> set orders. \<not> is_retry t \<and> r ''external_id'' = Some (routing_order_number t) \<and>
               (\<exists>bs. r ''barcode'' = Some (astype conv bs (client_order_number t))) \<and>
               (\<exists>cs. r ''claim_id'' = Some (astype conv cs (claim_id t))))"
    if "r \<in> set out" for r
    using reconciled_origin[OF assms(2)[unfolded pf] that ok'] by auto
  have clean: "s \<noteq> a @ ''_RETRY_'' @ b"
    if "r \<in> set out" "r ''external_id'' = Some (PStr s)" for r s a b
  proof
    assume s: "s = a @ ''_RETRY_'' @ b"
    from origin[OF that(1)] that(2) obtain t where
      "\<not> is_retry t" "routing_order_number t = PStr s" by auto
    with s show False unfolding is_retry_iff by blast
  qed
  have shown: "s \<noteq> a @ ''_RETRY_'' @ b"
    if run: "first_mile_monitor conv orders scans sel = Inr rep"
      and v: "v \<in> set (visible_frame rep)" and e: "v ''external_id'' = Some (PStr s)"
    for sel rep v s a b
  proof
    assume s: "s = a @ ''_RETRY_'' @ b"
    let ?held = "filter (\<lambda>t. \<not> is_retry t) (data_frame conv orders)"
    from first_mile_monitor_Inr[OF run] obtain merged where
      str: "\<forall>t \<in> set (data_frame conv orders). \<exists>s. routing_order_number t = PStr s"
      and r: "reconcile conv (map scan_row scans) (map proxy_row ?held) = Inr merged"
      and rep: "rep = \<lparr>scan_events = length merged,
                  scan_errors = length (filter (\<lambda>r. r ''pick_status'' = Some (PStr ''Missing'')) merged),
                  visible_frame = map (\<lambda>r. r |` set visible_columns) (filter (passes sel) merged)\<rparr>"
      by blast
    from str have str': "\<forall>t \<in> set ?held. \<exists>s. routing_order_number t = PStr s" by simp
    from rep v obtain r where ro: "r \<in> set merged" and vr: "v = r |` set visible_columns" by auto
    have "(r |` set visible_columns) ''external_id'' = r ''external_id''"
      by (simp add: visible_columns_def)
    with e have re: "r ''external_id'' = Some (PStr s)" unfolding vr by simp
    from reconciled_origin[OF r ro str'] re obtain t where
      "t \<in> set ?held" "routing_order_number t = PStr s" by auto
    then have "\<not> is_retry t" "routing_order_number t = PStr s" by simp_all
    with s show False unfolding is_retry_iff by blast
  qed
  have marker: "\<forall>t \<in> set orders.
           is_retry t \<longleftrightarrow> (\<exists>s a b. routing_order_number t = PStr s \<and> s = a @ ''_RETRY_'' @ b)"
    using is_retry_iff by blast
  have o: "\<forall>r \<in> set out.
           (r ''external_id'' = Some NaN \<and> r ''barcode'' = Some NaN) \<or>
           (\<exists>t \<in> set orders. \<not> is_retry t \<and> r ''external_id'' = Some (routing_order_number t) \<and>
               (\<exists>bs. r ''barcode'' = Some (astype conv bs (client_order_number t))) \<and>
               (\<exists>cs. r ''claim_id'' = Some (astype conv cs (claim_id t))))"
    using origin by blast
  have c: "\<forall>r \<in> set out. \<forall>s a b. r ''external_id'' = Some (PStr s) \<longrightarrow> s \<noteq> a @ ''_RETRY_'' @ b"
    using clean by blast
  have line127: "drop_retry (map proxy_row (data_frame conv orders)) =
             Inr (map proxy_row (filter (\<lambda>t. \<not> is_retry t) (data_frame conv orders)))"
    if "first_mile_monitor conv orders scans sel = Inr rep" for sel rep
    using first_mile_monitor_Inr[OF that] by blast
  have v: "\<forall>sel rep. first_mile_monitor conv orders scans sel = Inr rep \<longrightarrow>
           drop_retry (map proxy_row (data_frame conv orders)) =
             Inr (map proxy_row (filter (\<lambda>t. \<not> is_retry t) (data_frame conv orders))) \<and>
           (\<forall>r \<in> set (visible_frame rep). \<forall>s a b.
              r ''external_id'' = Some (PStr s) \<longrightarrow> s \<noteq> a @ ''_RETRY_'' @ b)"
    using shown line127 by blast
  show ?thesis
    by (intro conjI pf marker o c v)
qed

theorem C7_redelivery_excluded_witness:
  "\<exists>proxy_frame out.
     drop_retry (map proxy_row [order_xyz, order_retry, order_claimed]) = Inr proxy_frame \<and>
     reconcile sample_conv (map scan_row [scan_xyz, scan_abc]) proxy_frame = Inr out \<and>
     is_retry order_retry \<and> routing_order_number order_retry = PStr ''EXT-1_RETRY_1'' \<and>
     proxy_frame = map proxy_row [order_xyz, order_claimed] \<and>
     (\<exists>r \<in> set out. \<exists>t \<in> set [order_xyz, order_retry, order_claimed].
        \<not> is_retry t \<and> r ''external_id'' = Some (routing_order_number t) \<and>
        r ''barcode'' = Some (PStr ''XYZ999''))"
proof -
  let ?orders = "[order_xyz, order_retry, order_claimed]"
  let ?pf = "map proxy_row [order_xyz, order_claimed]"
  from sample_run obtain r1 r2 r3 where
    run: "reconcile sample_conv (map scan_row [scan_xyz, scan_abc]) ?pf = Inr [r1, r2, r3]"
    and b: "r1 ''barcode'' = Some (PStr ''XYZ999'')"
    by blast
  note c7 = C7_redelivery_excluded[OF sample_drop(2) run]
  have retry: "is_retry order_retry" "routing_order_number order_retry = PStr ''EXT-1_RETRY_1''"
    by (simp_all add: is_retry_def order_retry_def order_xyz_def)
  from c7 have "\<forall>r \<in> set [r1, r2, r3].
           (r ''external_id'' = Some NaN \<and> r ''barcode'' = Some NaN) \<or>
           (\<exists>t \<in> set ?orders. \<not> is_retry t \<and> r ''external_id'' = Some (routing_order_number t) \<and>
               (\<exists>bs. r ''barcode'' = Some (astype sample_conv bs (client_order_number t))) \<and>
               (\<exists>cs. r ''claim_id'' = Some (astype sample_conv cs (claim_id t))))"
    by blast
  then have "(r1 ''external_id'' = Some NaN \<and> r1 ''barcode'' = Some NaN) \<or>
           (\<exists>t \<in> set ?orders. \<not> is_retry t \<and> r1 ''external_id'' = Some (routing_order_number t) \<and>
               (\<exists>bs. r1 ''barcode'' = Some (astype sample_conv bs (client_order_number t))) \<and>
               (\<exists>cs. r1 ''claim_id'' = Some (astype sample_conv cs (claim_id t))))"
    by simp
  with b have "\<exists>t \<in> set ?orders. \<not> is_retry t \<and> r1 ''external_id'' = Some (routing_order_number t) \<and>
        r1 ''barcode'' = Some (PStr ''XYZ999'')"
    by auto
  then have "\<exists>r \<in> set [r1, r2, r3]. \<exists>t \<in> set ?orders.
        \<not> is_retry t \<and> r ''external_id'' = Some (routing_order_number t) \<and>
        r ''barcode'' = Some (PStr ''XYZ999'')"
    by simp
  with sample_drop(2) run retry show ?thesis by blast
qed

section \<open>Coordinates that are no numbers\<close>

text \<open>
  Claim C4, as the specification states it, fails: \<^verbatim>\<open>normalize_coordinates\<close> calls
  \<^verbatim>\<open>float\<close> with no handler around it, and \<^verbatim>\<open>apply\<close> lets the exception through.
  One scan without a latitude among three ends the reconciliation with
  \<^verbatim>\<open>TypeError\<close>: no other record is emitted and no report is rendered.
\<close>

theorem C4_coercion_counterexample:
  "reconcile sample_conv (map scan_row [scan_xyz, scan_no_location, scan_abc])
       (map proxy_row [order_xyz]) = Inl TypeError
   \<and> first_mile_monitor sample_conv [order_xyz] [scan_xyz, scan_no_location, scan_abc]
       \<lparr>couriers = [], clients = [], tariffs = [], filtered_statuses = []\<rparr> = Inl TypeError
   \<and> lat scan_no_location = PNone"
proof -
  have r: "reconcile sample_conv (map scan_row [scan_xyz, scan_no_location, scan_abc])
       (map proxy_row [order_xyz]) = Inl TypeError"
    by (simp add: reconcile_def merge_left_def infer_objects_def column_values_def
        List.map_filter_simps astype_def float64_column_def sample_defs scan_row_def proxy_row_def
        scan_columns_def proxy_columns_def join_row_def key_match_def nan_row_def
        set_barcode_image_def normalize_coordinates_def py_float_def)
  have d: "drop_retry (map proxy_row (data_frame sample_conv [order_xyz]))
      = Inr (map proxy_row [order_xyz])"
    unfolding sample_frame drop_retry_typed by (simp add: is_retry_def order_xyz_def)
  have "first_mile_monitor sample_conv [order_xyz] [scan_xyz, scan_no_location, scan_abc]
       \<lparr>couriers = [], clients = [], tariffs = [], filtered_statuses = []\<rparr> = Inl TypeError"
    by (simp only: first_mile_monitor_def d r ebind_Inl ebind_Inr)
  moreover have "lat scan_no_location = PNone"
    by (simp add: scan_no_location_def scan_xyz_def)
  ultimately show ?thesis using r by simp
qed

text \<open>
  Claim C4, amended. A coordinate that \<^verbatim>\<open>float\<close> does not accept is not contained to
  its record: the reconciliation returns a frame exactly when the \<^verbatim>\<open>lat\<close> and the
  \<^verbatim>\<open>lon\<close> of every scan can be coerced, and the script renders a report only then.
  \<^verbatim>\<open>None\<close> can never be coerced.
\<close>

theorem C4_coercion_aborts:
  "((\<exists>out. reconcile conv (map scan_row scans) (map proxy_row orders) = Inr out) \<longleftrightarrow>
      (\<forall>s \<in> set scans. coercible conv (lat s) \<and> coercible conv (lon s)))
   \<and> (\<forall>sel rep. first_mile_monitor conv orders scans sel = Inr rep \<longrightarrow>
         (\<forall>s \<in> set scans. coercible conv (lat s) \<and> coercible conv (lon s)))
   \<and> (\<forall>v. coercible conv v \<longleftrightarrow> (\<exists>x. py_float conv v = Inr x))
   \<and> \<not> coercible conv PNone"
proof -
  have a: "(\<exists>out. reconcile conv (map scan_row scans) (map proxy_row orders) = Inr out) \<longleftrightarrow>
      (\<forall>s \<in> set scans. coercible conv (lat s) \<and> coercible conv (lon s))"
    by (rule reconcile_typed_iff)
  have b: "\<forall>s \<in> set scans. coercible conv (lat s) \<and> coercible conv (lon s)"
    if "first_mile_monitor conv orders scans sel = Inr rep" for sel rep
  proof -
    from first_mile_monitor_Inr[OF that] have
      "\<exists>out. reconcile conv (map scan_row scans)
          (map proxy_row (filter (\<lambda>t. \<not> is_retry t) (data_frame conv orders))) = Inr out"
      by blast
    then show ?thesis unfolding reconcile_typed_iff .
  qed
  have c: "\<not> coercible conv PNone"
    by (simp add: coercible_def py_float_def)
  from a b c coercible_iff show ?thesis by blast
qed

theorem C4_coercion_aborts_witness:
  "(\<exists>out. reconcile sample_conv (map scan_row [scan_xyz, scan_abc])
       (map proxy_row [order_xyz, order_claimed]) = Inr out)
   \<and> coercible sample_conv (lat scan_xyz) \<and> coercible sample_conv (lon scan_xyz)
   \<and> coercible sample_conv (lat scan_abc) \<and> coercible sample_conv (lon scan_abc)
   \<and> \<not> coercible sample_conv (lat scan_no_location)"
proof -
  have ok: "coercible sample_conv (lat scan_xyz)" "coercible sample_conv (lon scan_xyz)"
    "coercible sample_conv (lat scan_abc)" "coercible sample_conv (lon scan_abc)"
    by (simp_all add: coercible_def py_float_def sample_conv_def scan_xyz_def scan_abc_def)
  have bad: "\<not> coercible sample_conv (lat scan_no_location)"
    by (simp add: coercible_def py_float_def scan_no_location_def scan_xyz_def)
  from ok have "\<forall>s \<in> set [scan_xyz, scan_abc].
      coercible sample_conv (lat s) \<and> coercible sample_conv (lon s)"
    by simp
  with C4_coercion_aborts[of sample_conv "[scan_xyz, scan_abc]" "[order_xyz, order_claimed]"]
  have "\<exists>out. reconcile sample_conv (map scan_row [scan_xyz, scan_abc])
       (map proxy_row [order_xyz, order_claimed]) = Inr out"
    by blast
  with ok bad show ?thesis by blast
qed

section \<open>The time window\<close>






end
